theory Spec2Isabelle
  imports Main "HOL-Library.Word" "HOL-Library.Sublist"
begin

section \<open>JavaScript strings\<close>

text \<open>
  A JavaScript string is a sequence of UTF-16 code units; \<open>length\<close>, the regular
  expressions of \<open>functions/contact.ts\<close> (none has the \<open>u\<close> flag) and \<open>trim\<close> all
  work on code units.  \<open>js\<close> writes an ASCII literal of the source as such a string.
\<close>

type_synonym jschar = "16 word"
type_synonym jsstring = "jschar list"

definition js :: "string \<Rightarrow> jsstring" where
  "js s = map of_char s"

text \<open>
  The code units that \<open>\s\<close> matches and that \<open>String.prototype.trim\<close> removes:
  ECMAScript's WhiteSpace and LineTerminator (TAB, LF, VT, FF, CR, SP, NBSP, U+1680,
  U+2000 to U+200A, U+2028, U+2029, U+202F, U+205F, U+3000, U+FEFF).
\<close>

definition is_whitespace :: "jschar \<Rightarrow> bool" where
  "is_whitespace c =
     (c \<in> {0x0009, 0x000A, 0x000B, 0x000C, 0x000D, 0x0020, 0x00A0, 0x1680,
            0x2028, 0x2029, 0x202F, 0x205F, 0x3000, 0xFEFF}
      \<or> (0x2000 \<le> c \<and> c \<le> 0x200A))"

text \<open>\<open>str.trim()\<close>\<close>

definition trim :: "jsstring \<Rightarrow> jsstring" where
  "trim s = rev (dropWhile is_whitespace (rev (dropWhile is_whitespace s)))"

text \<open>\<open>str.includes(search)\<close>: \<open>search\<close> occurs in \<open>str\<close> as a contiguous substring.\<close>

fun str_includes :: "jsstring \<Rightarrow> jsstring \<Rightarrow> bool" where
  "str_includes [] search = (search = [])"
| "str_includes (c # cs) search = (prefix search (c # cs) \<or> str_includes cs search)"

text \<open>
  \<open>str.split(separator)\<close> for a separator of one code unit; splitting the empty string
  gives one segment, the empty string.
\<close>

fun split :: "jsstring \<Rightarrow> jschar \<Rightarrow> jsstring list" where
  "split [] sep = [[]]"
| "split (c # cs) sep =
     (if c = sep then [] # split cs sep
      else (case split cs sep of
              [] \<Rightarrow> [[c]]
            | seg # segs \<Rightarrow> (c # seg) # segs))"

text \<open>A number in a template literal: the decimal digits of a non-negative integer.\<close>

fun number_to_string :: "nat \<Rightarrow> jsstring" where
  "number_to_string n =
     (if n < 10 then [of_nat (48 + n)]
      else number_to_string (n div 10) @ [of_nat (48 + n mod 10)])"

section \<open>Regular expressions\<close>

text \<open>
  The fragment of regular expressions that the handler uses: a character class (a literal
  character is the class of that one character), concatenation, \<open>r*\<close> and \<open>r+\<close>.
  \<open>matches r w\<close> holds when \<open>r\<close> matches the whole of \<open>w\<close>.
\<close>

datatype regex =
    Class "jschar \<Rightarrow> bool"
  | Seq regex regex
  | Star regex
  | Plus regex

function matches :: "regex \<Rightarrow> jsstring \<Rightarrow> bool" where
  "matches (Class P) w = (case w of [c] \<Rightarrow> P c | _ \<Rightarrow> False)"
| "matches (Seq r s) w =
     (\<exists>n \<in> {0..length w}. matches r (take n w) \<and> matches s (drop n w))"
| "matches (Star r) w =
     (w = [] \<or> (\<exists>n \<in> {1..length w}. matches r (take n w) \<and> matches (Star r) (drop n w)))"
| "matches (Plus r) w =
     (\<exists>n \<in> {1..length w}. matches r (take n w) \<and> matches (Star r) (drop n w))"
  by pat_completeness auto
termination
  by (relation "inv_image (less_than <*lex*> less_than) (\<lambda>(r, w). (length w, size r))") auto

declare matches.simps [simp del]

text \<open>
  \<open>contains_match r s\<close>: some substring of \<open>s\<close> matches \<open>r\<close> (what an unanchored
  \<open>r.test(s)\<close> decides).
\<close>

definition contains_match :: "regex \<Rightarrow> jsstring \<Rightarrow> bool" where
  "contains_match r s =
     (\<exists>i \<in> {0..length s}. \<exists>n \<in> {0..length s - i}. matches r (take n (drop i s)))"

text \<open>
  The length of the match of \<open>r\<close> that starts at the head of \<open>s\<close>, if there is one.
  JavaScript picks among the matching prefixes by backtracking priority; the model takes
  the longest.  Both patterns that the handler replaces have at most one matching prefix
  at any position (lemmas \<open>tag_prefix_unique\<close> and \<open>newline_prefix_unique\<close>), so
  for them the choice makes no difference.
\<close>

definition exec_length :: "regex \<Rightarrow> jsstring \<Rightarrow> nat option" where
  "exec_length r s =
     List.find (\<lambda>n. matches r (take n s)) (rev [0..<Suc (length s)])"

text \<open>
  \<open>str.replace(r, replacement)\<close> for a regular expression with the \<open>g\<close> flag and a
  replacement without \<open>$\<close> patterns: scan from the left, replace each match and go on
  behind it; after an empty match keep one code unit and go on.
\<close>

function replace_all :: "regex \<Rightarrow> jsstring \<Rightarrow> jsstring \<Rightarrow> jsstring" where
  "replace_all r replacement [] =
     (case exec_length r [] of Some _ \<Rightarrow> replacement | None \<Rightarrow> [])"
| "replace_all r replacement (c # cs) =
     (case exec_length r (c # cs) of
        None \<Rightarrow> c # replace_all r replacement cs
      | Some 0 \<Rightarrow> replacement @ c # replace_all r replacement cs
      | Some (Suc n) \<Rightarrow> replacement @ replace_all r replacement (drop n cs))"
  by pat_completeness auto
termination
  by (relation "measure (\<lambda>(r, replacement, s). length s)") auto

text \<open>\<open>/<[^>]*>/\<close>\<close>

definition tag_regex :: regex where
  "tag_regex =
     Seq (Class (\<lambda>c. c = 0x3C)) (Seq (Star (Class (\<lambda>c. c \<noteq> 0x3E))) (Class (\<lambda>c. c = 0x3E)))"

text \<open>\<open>/\n/\<close>\<close>

definition newline_regex :: regex where
  "newline_regex = Class (\<lambda>c. c = 0x0A)"

text \<open>\<open>/^[^\s@]+@[^\s@]+\.[^\s@]+$/\<close>; the anchors make \<open>test\<close> match the whole string.\<close>

definition emailRegex :: regex where
  "emailRegex =
     Seq (Plus (Class (\<lambda>c. \<not> is_whitespace c \<and> c \<noteq> 0x40)))
       (Seq (Class (\<lambda>c. c = 0x40))
         (Seq (Plus (Class (\<lambda>c. \<not> is_whitespace c \<and> c \<noteq> 0x40)))
           (Seq (Class (\<lambda>c. c = 0x2E))
             (Plus (Class (\<lambda>c. \<not> is_whitespace c \<and> c \<noteq> 0x40))))))"

definition emailRegex_test :: "jsstring \<Rightarrow> bool" where
  "emailRegex_test s = matches emailRegex s"

section \<open>Sanitation\<close>

text \<open>\<open>const sanitize = (str: string) => str.replace(/<[^>]*>/g, '').trim();\<close>\<close>

definition strip_tags :: "jsstring \<Rightarrow> jsstring" where
  "strip_tags s = replace_all tag_regex [] s"

definition sanitize :: "jsstring \<Rightarrow> jsstring" where
  "sanitize str = trim (strip_tags str)"

text \<open>A string has an HTML-tag-like substring when some substring matches \<open>/<[^>]*>/\<close>.\<close>

definition has_tag :: "jsstring \<Rightarrow> bool" where
  "has_tag s = contains_match tag_regex s"

definition no_outer_whitespace :: "jsstring \<Rightarrow> bool" where
  "no_outer_whitespace s = (s = [] \<or> (\<not> is_whitespace (hd s) \<and> \<not> is_whitespace (last s)))"

section \<open>The data of a request\<close>

text \<open>What the handler can catch: the exceptions of the platform and its own \<open>new Error(...)\<close>.\<close>

datatype js_error = TypeError | SyntaxError | Error jsstring

text \<open>
  The values that \<open>contactData\<close> and its fields can hold: what \<open>request.json()\<close> parses
  (null, booleans, numbers, strings, arrays, objects; an object as its own properties in
  order, each key once), \<open>undefined\<close> for a property that is not there, and the \<open>File\<close>
  (with its file name) that \<open>formData.get\<close> gives for an uploaded file.  The handler
  never looks at the value of a number, so an integer stands for it.
\<close>

datatype jsval =
    JUndefined
  | JNull
  | JBool bool
  | JNum int
  | JStr jsstring
  | JArr "jsval list"
  | JObj "(jsstring \<times> jsval) list"
  | JFile jsstring

text \<open>An entry of a parsed form: \<open>FormData.get\<close> returns a string or a \<open>File\<close>.\<close>

datatype form_entry = FormString jsstring | FormFile jsstring

text \<open>\<open>interface ContactRequest\<close>, after sanitation (every field is then a string).\<close>

record ContactRequest =
  name :: jsstring
  email :: jsstring
  phone :: jsstring
  message :: jsstring

text \<open>\<open>interface Env\<close>: the three configured values, each a string.\<close>

record Env =
  RESEND_API_KEY :: jsstring
  TO_EMAIL :: jsstring
  ALLOWED_ORIGINS :: jsstring

text \<open>\<open>request.cf\<close>: the properties the handler reads; \<open>asn\<close> is a number.\<close>

record cf_properties =
  country :: "jsstring option"
  city :: "jsstring option"
  region :: "jsstring option"
  timezone :: "jsstring option"
  asn :: "nat option"
  colo :: "jsstring option"

text \<open>
  The request as the handler sees it: \<open>headers_get\<close> is \<open>request.headers.get\<close> (\<open>None\<close> for
  \<open>null\<close>), \<open>json\<close> and \<open>formData\<close> are what awaiting \<open>request.json()\<close> and
  \<open>request.formData()\<close> gives (a parsed body, or the exception thrown), and \<open>cf\<close> is
  \<open>request.cf\<close> (\<open>None\<close> for \<open>undefined\<close>).
\<close>

record request =
  headers_get :: "jsstring \<Rightarrow> jsstring option"
  json :: "js_error + jsval"
  formData :: "js_error + (jsstring \<times> form_entry) list"
  cf :: "cf_properties option"

text \<open>
  \<open>new Response(body, { status, headers })\<close>: the status, the body text and the headers
  that the handler passes (none for the plain-text responses).
\<close>

record Response =
  status :: nat
  body :: jsstring
  headers :: "(jsstring \<times> jsstring) list"

text \<open>
  The call \<open>fetch(url, { method, headers, body: JSON.stringify(...) })\<close>; \<open>email_payload\<close> is
  the object handed to \<open>JSON.stringify\<close>, field by field.
\<close>

record email_payload =
  from_address :: jsstring
  to_address :: jsstring
  subject :: jsstring
  html :: jsstring
  reply_to :: jsstring

record fetch_request =
  url :: jsstring
  http_method :: jsstring
  authorization :: jsstring
  content_type :: jsstring
  payload :: email_payload

text \<open>The provider's response; the handler reads \<open>emailResponse.ok\<close> only.\<close>

record fetch_response =
  ok :: bool

text \<open>
  What one invocation does: the response it returns, the call to the provider it made (if
  any), and the error it wrote with \<open>console.error\<close> (if any).
\<close>

record outcome =
  response :: Response
  fetched :: "fetch_request option"
  logged :: "js_error option"

section \<open>The handler\<close>

text \<open>
  Lines 21 to 26: \<open>origin && !allowedDomains.includes(origin)\<close>.  \<open>null\<close> and the empty
  string are falsy; \<open>Array.prototype.includes\<close> compares strings for equality.
\<close>

definition origin_forbidden :: "Env \<Rightarrow> request \<Rightarrow> bool" where
  "origin_forbidden env req =
     (let origin = headers_get req (js ''Origin'');
          allowedDomains = split (ALLOWED_ORIGINS env) 0x2C
      in case origin of
           None \<Rightarrow> False
         | Some v \<Rightarrow> v \<noteq> [] \<and> v \<notin> set allowedDomains)"

text \<open>
  \<open>(formData.get(key) as string) || EMPTY\<close> with \<open>EMPTY\<close> the empty string: \<open>null\<close> and
  the empty string give the empty string, a \<open>File\<close> stays.
\<close>

definition form_field :: "(jsstring \<times> form_entry) list \<Rightarrow> jsstring \<Rightarrow> jsval" where
  "form_field form key =
     (case map_of form key of
        None \<Rightarrow> JStr []
      | Some (FormString s) \<Rightarrow> (if s = [] then JStr [] else JStr s)
      | Some (FormFile file_name) \<Rightarrow> JFile file_name)"

text \<open>Lines 28 to 41: \<open>contactData\<close> from the JSON body or from the form.\<close>

definition read_contactData :: "request \<Rightarrow> js_error + jsval" where
  "read_contactData req =
     (if (case headers_get req (js ''content-type'') of
            None \<Rightarrow> False
          | Some contentType \<Rightarrow> str_includes contentType (js ''application/json''))
      then json req
      else (case formData req of
              Inl e \<Rightarrow> Inl e
            | Inr form \<Rightarrow>
                Inr (JObj [(js ''name'', form_field form (js ''name'')),
                           (js ''email'', form_field form (js ''email'')),
                           (js ''phone'', form_field form (js ''phone'')),
                           (js ''message'', form_field form (js ''message''))])))"

text \<open>
  \<open>contactData.key\<close> for the four keys the handler reads: reading a property of \<open>null\<close> or
  \<open>undefined\<close> throws; an object gives its own property or \<open>undefined\<close> (no prototype
  has one of these names, but a \<open>File\<close> has a \<open>name\<close>); every other value gives
  \<open>undefined\<close>.
\<close>

fun get_field :: "jsval \<Rightarrow> jsstring \<Rightarrow> js_error + jsval" where
  "get_field JUndefined key = Inl TypeError"
| "get_field JNull key = Inl TypeError"
| "get_field (JObj props) key =
     Inr (case map_of props key of Some v \<Rightarrow> v | None \<Rightarrow> JUndefined)"
| "get_field (JFile file_name) key =
     Inr (if key = js ''name'' then JStr file_name else JUndefined)"
| "get_field v key = Inr JUndefined"

text \<open>
  \<open>sanitize(value)\<close> on whatever the field holds: \<open>str.replace\<close> exists on a string only.
  On \<open>undefined\<close> and \<open>null\<close> reading \<open>replace\<close> throws a TypeError; on every other
  value \<open>replace\<close> is not a function (a parsed JSON object holds no function), and the
  call throws a TypeError.
\<close>

fun sanitize_value :: "jsval \<Rightarrow> js_error + jsstring" where
  "sanitize_value (JStr str) = Inr (sanitize str)"
| "sanitize_value v = Inl TypeError"

definition sanitize_field :: "jsval \<Rightarrow> jsstring \<Rightarrow> js_error + jsstring" where
  "sanitize_field contactData key =
     (case get_field contactData key of
        Inl e \<Rightarrow> Inl e
      | Inr v \<Rightarrow> sanitize_value v)"

text \<open>Lines 45 to 48: the four assignments, in order; the first exception ends them.\<close>

definition sanitize_inputs :: "jsval \<Rightarrow> js_error + ContactRequest" where
  "sanitize_inputs contactData =
     (case sanitize_field contactData (js ''name'') of
        Inl e \<Rightarrow> Inl e
      | Inr n \<Rightarrow>
     (case sanitize_field contactData (js ''email'') of
        Inl e \<Rightarrow> Inl e
      | Inr e \<Rightarrow>
     (case sanitize_field contactData (js ''phone'') of
        Inl e \<Rightarrow> Inl e
      | Inr p \<Rightarrow>
     (case sanitize_field contactData (js ''message'') of
        Inl e \<Rightarrow> Inl e
      | Inr m \<Rightarrow> Inr \<lparr>name = n, email = e, phone = p, message = m\<rparr>))))"

text \<open>Lines 50 to 64: the three validations; \<open>None\<close> when the data passes them all.\<close>

definition validate :: "ContactRequest \<Rightarrow> Response option" where
  "validate contactData =
     (if name contactData = [] \<or> email contactData = [] \<or> message contactData = []
      then Some \<lparr>status = 400, body = js ''Missing required fields: name, email, message'',
                  headers = []\<rparr>
      else if \<not> emailRegex_test (email contactData)
      then Some \<lparr>status = 400, body = js ''Invalid email format'', headers = []\<rparr>
      else if length (name contactData) > 100 \<or> length (email contactData) > 255
                \<or> length (message contactData) > 5000
      then Some \<lparr>status = 400, body = js ''Input too long'', headers = []\<rparr>
      else None)"

text \<open>\<open>a || b\<close> on header values, and \<open>a || 'unknown'\<close>.\<close>

definition or_else :: "jsstring option \<Rightarrow> jsstring option \<Rightarrow> jsstring option" where
  "or_else a b = (case a of None \<Rightarrow> b | Some s \<Rightarrow> (if s = [] then b else Some s))"

definition or_unknown :: "jsstring option \<Rightarrow> jsstring" where
  "or_unknown a =
     (case a of None \<Rightarrow> js ''unknown'' | Some s \<Rightarrow> (if s = [] then js ''unknown'' else s))"

text \<open>\<open>request.cf?.field\<close>\<close>

definition cf_field :: "request \<Rightarrow> (cf_properties \<Rightarrow> 'a option) \<Rightarrow> 'a option" where
  "cf_field req field = (case cf req of None \<Rightarrow> None | Some props \<Rightarrow> field props)"

text \<open>Lines 67 to 74, as the strings the template prints.\<close>

definition clientIP :: "request \<Rightarrow> jsstring" where
  "clientIP req =
     or_unknown (or_else (headers_get req (js ''CF-Connecting-IP''))
                         (headers_get req (js ''X-Forwarded-For'')))"

definition userAgent :: "request \<Rightarrow> jsstring" where
  "userAgent req = or_unknown (headers_get req (js ''User-Agent''))"

definition asn_text :: "request \<Rightarrow> jsstring" where
  "asn_text req =
     (case cf_field req asn of
        None \<Rightarrow> js ''unknown''
      | Some n \<Rightarrow> (if n = 0 then js ''unknown'' else number_to_string n))"

text \<open>The lines of a template literal, joined by line feeds.\<close>

fun join_lines :: "jsstring list \<Rightarrow> jsstring" where
  "join_lines [] = []"
| "join_lines [l] = l"
| "join_lines (l # ls) = l @ 0x0A # join_lines ls"

text \<open>\<open>contactData.message.replace(/\n/g, '<br>')\<close>\<close>

definition message_html :: "jsstring \<Rightarrow> jsstring" where
  "message_html m = replace_all newline_regex (js ''<br>'') m"

text \<open>Lines 86 to 102: the \<open>html\<close> template.\<close>

definition html_body :: "request \<Rightarrow> ContactRequest \<Rightarrow> jsstring" where
  "html_body req contactData =
     join_lines
      [[],
       js ''          <h2>New Contact Form Submission</h2>'',
       js ''          <p><strong>Name:</strong> '' @ name contactData @ js ''</p>'',
       js ''          <p><strong>Email:</strong> '' @ email contactData @ js ''</p>'',
       js ''          <p><strong>Phone:</strong> ''
         @ (if phone contactData = [] then js ''Not provided'' else phone contactData)
         @ js ''</p>'',
       js ''          <p><strong>Message:</strong></p>'',
       js ''          <p>'' @ message_html (message contactData) @ js ''</p>'',
       js ''          '',
       js ''          <hr>'',
       js ''          <h3>Connection Details</h3>'',
       js ''          <p><strong>IP Address:</strong> '' @ clientIP req @ js ''</p>'',
       js ''          <p><strong>Location:</strong> '' @ or_unknown (cf_field req city) @ js '', ''
         @ or_unknown (cf_field req region) @ js '', '' @ or_unknown (cf_field req country)
         @ js ''</p>'',
       js ''          <p><strong>Timezone:</strong> '' @ or_unknown (cf_field req timezone)
         @ js ''</p>'',
       js ''          <p><strong>ISP:</strong> '' @ asn_text req @ js ''</p>'',
       js ''          <p><strong>Cloudflare DC:</strong> '' @ or_unknown (cf_field req colo)
         @ js ''</p>'',
       js ''          <p><strong>User Agent:</strong> '' @ userAgent req @ js ''</p>'',
       js ''        '']"

text \<open>Lines 76 to 105: the request sent to the provider.\<close>

definition email_request :: "Env \<Rightarrow> request \<Rightarrow> ContactRequest \<Rightarrow> fetch_request" where
  "email_request env req contactData =
     \<lparr>url = js ''https://api.resend.com/emails'',
      http_method = js ''POST'',
      authorization = js ''Bearer '' @ RESEND_API_KEY env,
      content_type = js ''application/json'',
      payload =
        \<lparr>from_address = js ''contact@yourdomain.com'',
         to_address = TO_EMAIL env,
         subject = js ''Contact Form: '' @ name contactData,
         html = html_body req contactData,
         reply_to = email contactData\<rparr>\<rparr>"

text \<open>The two JSON responses (\<open>JSON.stringify\<close> of an object of a boolean and a string).\<close>

definition success_response :: Response where
  \<open>success_response =
     \<lparr>status = 200,
      body = js ''{"success":true,"message":"Email sent successfully"}'',
      headers = [(js ''Content-Type'', js ''application/json'')]\<rparr>\<close>

definition failure_response :: Response where
  \<open>failure_response =
     \<lparr>status = 500,
      body = js ''{"success":false,"message":"Failed to send email"}'',
      headers = [(js ''Content-Type'', js ''application/json'')]\<rparr>\<close>

text \<open>
  The body of the \<open>try\<close> block (lines 18 to 114): the call made to the provider, if any, and
  either the response returned or the exception thrown.  \<open>fetch\<close> is the provider as
  the handler meets it: a response, or the exception of a failed call.
\<close>

definition try_block ::
  "Env \<Rightarrow> request \<Rightarrow> (fetch_request \<Rightarrow> js_error + fetch_response)
     \<Rightarrow> fetch_request option \<times> (js_error + Response)" where
  "try_block env req fetch =
     (if origin_forbidden env req
      then (None, Inr \<lparr>status = 403, body = js ''Forbidden'', headers = []\<rparr>)
      else (case read_contactData req of
              Inl e \<Rightarrow> (None, Inl e)
            | Inr parsed \<Rightarrow>
          (case sanitize_inputs parsed of
              Inl e \<Rightarrow> (None, Inl e)
            | Inr contactData \<Rightarrow>
          (case validate contactData of
              Some rejection \<Rightarrow> (None, Inr rejection)
            | None \<Rightarrow>
          (let sent = email_request env req contactData in
           case fetch sent of
              Inl e \<Rightarrow> (Some sent, Inl e)
            | Inr emailResponse \<Rightarrow>
                if \<not> ok emailResponse
                then (Some sent, Inl (Error (js ''Failed to send email'')))
                else (Some sent, Inr success_response))))))"

text \<open>\<open>onRequestPost\<close>: the \<open>try\<close> block and its \<open>catch\<close> (lines 116 to 122).\<close>

definition onRequestPost ::
  "Env \<Rightarrow> request \<Rightarrow> (fetch_request \<Rightarrow> js_error + fetch_response) \<Rightarrow> outcome" where
  "onRequestPost env req fetch =
     (case try_block env req fetch of
        (sent, Inr returned) \<Rightarrow> \<lparr>response = returned, fetched = sent, logged = None\<rparr>
      | (sent, Inl error) \<Rightarrow>
          \<lparr>response = failure_response, fetched = sent, logged = Some error\<rparr>)"

section \<open>Example requests\<close>

text \<open>
  A configuration, requests and providers to run the handler on: a JSON request and a
  form request with a given \<open>Origin\<close> header (or none) and a given body, and providers
  that accept the email, refuse it, or cannot be reached.
\<close>

definition site_env :: Env where
  "site_env =
     \<lparr>RESEND_API_KEY = js ''re_test_key'',
      TO_EMAIL = js ''owner@site.example'',
      ALLOWED_ORIGINS = js ''https://site.example''\<rparr>"

definition json_post :: "jsstring option \<Rightarrow> jsval \<Rightarrow> request" where
  "json_post origin parsed =
     \<lparr>headers_get =
        (\<lambda>key. if key = js ''Origin'' then origin
               else if key = js ''content-type'' then Some (js ''application/json'')
               else None),
      json = Inr parsed,
      formData = Inl TypeError,
      cf = None\<rparr>"

definition form_post :: "jsstring option \<Rightarrow> (jsstring \<times> form_entry) list \<Rightarrow> request" where
  "form_post origin form =
     \<lparr>headers_get =
        (\<lambda>key. if key = js ''Origin'' then origin
               else if key = js ''content-type''
                    then Some (js ''application/x-www-form-urlencoded'')
               else None),
      json = Inl SyntaxError,
      formData = Inr form,
      cf = None\<rparr>"

definition contact_json :: "jsstring \<Rightarrow> jsstring \<Rightarrow> jsstring \<Rightarrow> jsstring \<Rightarrow> jsval" where
  "contact_json n e p m =
     JObj [(js ''name'', JStr n), (js ''email'', JStr e), (js ''phone'', JStr p),
           (js ''message'', JStr m)]"

definition provider_accepts :: "fetch_request \<Rightarrow> js_error + fetch_response" where
  "provider_accepts sent = Inr \<lparr>ok = True\<rparr>"

definition provider_refuses :: "fetch_request \<Rightarrow> js_error + fetch_response" where
  "provider_refuses sent = Inr \<lparr>ok = False\<rparr>"

definition provider_unreachable :: "fetch_request \<Rightarrow> js_error + fetch_response" where
  "provider_unreachable sent = Inl TypeError"

section \<open>What the regular expressions match\<close>

lemma matches_Class_iff: "matches (Class P) w \<longleftrightarrow> (\<exists>c. w = [c] \<and> P c)"
  by (cases w) (auto simp: matches.simps(1) split: list.splits)

lemma matches_Seq_iff:
  "matches (Seq r s) w \<longleftrightarrow> (\<exists>u v. w = u @ v \<and> matches r u \<and> matches s v)"
proof
  assume "matches (Seq r s) w"
  then obtain n where "matches r (take n w)" "matches s (drop n w)"
    unfolding matches.simps(2) by blast
  then have "w = take n w @ drop n w \<and> matches r (take n w) \<and> matches s (drop n w)" by simp
  then show "\<exists>u v. w = u @ v \<and> matches r u \<and> matches s v" by blast
next
  assume "\<exists>u v. w = u @ v \<and> matches r u \<and> matches s v"
  then obtain u v where uv: "w = u @ v" "matches r u" "matches s v" by blast
  then have "length u \<in> {0..length w}" "matches r (take (length u) w)" "matches s (drop (length u) w)"
    by simp_all
  then show "matches (Seq r s) w" unfolding matches.simps(2) by blast
qed

lemma matches_Plus_iff:
  "matches (Plus r) w \<longleftrightarrow> (\<exists>u v. w = u @ v \<and> u \<noteq> [] \<and> matches r u \<and> matches (Star r) v)"
proof
  assume "matches (Plus r) w"
  then obtain n where n: "n \<in> {1..length w}" "matches r (take n w)" "matches (Star r) (drop n w)"
    unfolding matches.simps(4) by blast
  then have "w = take n w @ drop n w \<and> take n w \<noteq> [] \<and> matches r (take n w) \<and> matches (Star r) (drop n w)"
    by auto
  then show "\<exists>u v. w = u @ v \<and> u \<noteq> [] \<and> matches r u \<and> matches (Star r) v" by blast
next
  assume "\<exists>u v. w = u @ v \<and> u \<noteq> [] \<and> matches r u \<and> matches (Star r) v"
  then obtain u v where uv: "w = u @ v" "u \<noteq> []" "matches r u" "matches (Star r) v" by blast
  then have "length u \<in> {1..length w}" "matches r (take (length u) w)"
      "matches (Star r) (drop (length u) w)"
    by (simp_all add: Suc_le_eq)
  then show "matches (Plus r) w" unfolding matches.simps(4) by blast
qed

lemma matches_Star_iff:
  "matches (Star r) w \<longleftrightarrow>
     (w = [] \<or> (\<exists>u v. w = u @ v \<and> u \<noteq> [] \<and> matches r u \<and> matches (Star r) v))"
proof -
  have "matches (Star r) w \<longleftrightarrow> (w = [] \<or> matches (Plus r) w)"
    by (subst matches.simps(3)) (simp only: matches.simps(4))
  then show ?thesis by (simp only: matches_Plus_iff)
qed

lemma matches_Star_Class: "matches (Star (Class P)) w \<longleftrightarrow> (\<forall>c \<in> set w. P c)"
proof (induction w)
  case Nil
  show ?case by (subst matches_Star_iff) simp
next
  case (Cons a w)
  show ?case
  proof
    assume "matches (Star (Class P)) (a # w)"
    then obtain u v where uv: "a # w = u @ v" "matches (Class P) u" "matches (Star (Class P)) v"
      by (subst (asm) matches_Star_iff) auto
    from uv(2) obtain c where c: "u = [c]" "P c" by (auto simp: matches_Class_iff)
    with uv(1) have "a = c" "w = v" by simp_all
    with c uv(3) Cons.IH show "\<forall>c \<in> set (a # w). P c" by simp
  next
    assume all: "\<forall>c \<in> set (a # w). P c"
    then have "matches (Class P) [a]" "matches (Star (Class P)) w"
      using Cons.IH by (simp_all add: matches_Class_iff)
    then have "a # w = [a] @ w \<and> [a] \<noteq> [] \<and> matches (Class P) [a] \<and> matches (Star (Class P)) w"
      by simp
    then show "matches (Star (Class P)) (a # w)"
      by (subst matches_Star_iff) blast
  qed
qed

lemma matches_Plus_Class: "matches (Plus (Class P)) w \<longleftrightarrow> (w \<noteq> [] \<and> (\<forall>c \<in> set w. P c))"
proof
  assume "matches (Plus (Class P)) w"
  then obtain u v where uv: "w = u @ v" "matches (Class P) u" "matches (Star (Class P)) v"
    by (auto simp: matches_Plus_iff)
  then show "w \<noteq> [] \<and> (\<forall>c \<in> set w. P c)"
    by (auto simp: matches_Class_iff matches_Star_Class)
next
  assume a: "w \<noteq> [] \<and> (\<forall>c \<in> set w. P c)"
  then obtain c cs where w: "w = c # cs" by (cases w) auto
  with a have "w = [c] @ cs \<and> [c] \<noteq> [] \<and> matches (Class P) [c] \<and> matches (Star (Class P)) cs"
    by (simp add: matches_Class_iff matches_Star_Class)
  then show "matches (Plus (Class P)) w" unfolding matches_Plus_iff by blast
qed

lemma matches_tag_regex:
  "matches tag_regex w \<longleftrightarrow> (\<exists>mid. w = 0x3C # mid @ [0x3E] \<and> 0x3E \<notin> set mid)"
  unfolding tag_regex_def matches_Seq_iff matches_Class_iff matches_Star_Class
  by auto


lemma exec_length_None: "(\<And>n. \<not> matches r (take n s)) \<Longrightarrow> exec_length r s = None"
  by (simp add: exec_length_def find_None_iff del: upt_Suc)

lemma exec_length_unique:
  assumes "k \<le> length s" and "matches r (take k s)"
    and "\<And>n. n \<le> length s \<Longrightarrow> matches r (take n s) \<Longrightarrow> n = k"
  shows "exec_length r s = Some k"
proof (cases "exec_length r s")
  case None
  then have "\<not> matches r (take k s)" if "k \<in> set (rev [0..<Suc (length s)])"
    using that unfolding exec_length_def find_None_iff by blast
  with assms(1,2) show ?thesis by (simp del: upt_Suc)
next
  case (Some n)
  then obtain i where i: "i < length (rev [0..<Suc (length s)])"
      "matches r (take (rev [0..<Suc (length s)] ! i) s)" "n = rev [0..<Suc (length s)] ! i"
    unfolding exec_length_def find_Some_iff by blast
  from i(1,3) have "n \<in> set (rev [0..<Suc (length s)])" using nth_mem by blast
  then have "n \<le> length s" by (simp del: upt_Suc)
  with assms(3) i(2,3) Some show ?thesis by simp
qed

lemma take_tag_shape:
  assumes "take n (c # cs) = 0x3C # mid @ [0x3E]" and "(0x3E :: jschar) \<notin> set mid"
  shows "c = 0x3C \<and> 0x3E \<in> set cs \<and> takeWhile (\<lambda>x. x \<noteq> 0x3E) cs = mid"
proof -
  from assms(1) obtain m where n: "n = Suc m" by (cases n) auto
  with assms(1) have c: "c = 0x3C" and t: "take m cs = mid @ [0x3E]" by simp_all
  have "cs = take m cs @ drop m cs" by simp
  with t have cs: "cs = mid @ 0x3E # drop m cs" by simp
  have "takeWhile (\<lambda>x. x \<noteq> 0x3E) (mid @ 0x3E # drop m cs) = mid"
    using assms(2) by (subst takeWhile_append2) auto
  with cs have "takeWhile (\<lambda>x. x \<noteq> 0x3E) cs = mid" by simp
  moreover have "0x3E \<in> set cs" by (subst cs) simp
  ultimately show ?thesis using c by simp
qed

lemma take_tag_length:
  assumes "take n s = 0x3C # mid @ [0x3E :: jschar]" and "n \<le> length s"
  shows "n = length mid + 2"
proof -
  have "length (take n s) = n" using assms(2) by simp
  with assms(1) show ?thesis by simp
qed

lemma exec_length_tag:
  "exec_length tag_regex s =
     (case s of
        [] \<Rightarrow> None
      | c # cs \<Rightarrow>
          if c = 0x3C \<and> 0x3E \<in> set cs
          then Some (length (takeWhile (\<lambda>x. x \<noteq> 0x3E) cs) + 2)
          else None)"
proof (cases s)
  case Nil
  then show ?thesis by (simp add: exec_length_None matches_tag_regex)
next
  case (Cons c cs)
  show ?thesis
  proof (cases "c = 0x3C \<and> 0x3E \<in> set cs")
    case False
    have "\<not> matches tag_regex (take n s)" for n
      using False take_tag_shape[of n c cs] unfolding Cons matches_tag_regex by blast
    then show ?thesis using False Cons by (simp add: exec_length_None)
  next
    case True
    define mid where "mid = takeWhile (\<lambda>x. x \<noteq> (0x3E :: jschar)) cs"
    define k where "k = length mid + 2"
    have dw: "dropWhile (\<lambda>x. x \<noteq> (0x3E :: jschar)) cs \<noteq> []" using True by simp
    then obtain rest where rest: "dropWhile (\<lambda>x. x \<noteq> (0x3E :: jschar)) cs = 0x3E # rest"
      using hd_dropWhile[OF dw] by (cases "dropWhile (\<lambda>x. x \<noteq> (0x3E :: jschar)) cs") auto
    have cs: "cs = mid @ 0x3E # rest"
      using takeWhile_dropWhile_id[of "\<lambda>x. x \<noteq> (0x3E :: jschar)" cs] rest mid_def by simp
    have nomid: "0x3E \<notin> set mid" unfolding mid_def by (auto dest: set_takeWhileD)
    have tk: "take k s = 0x3C # mid @ [0x3E]" using True Cons cs k_def by simp
    have "exec_length tag_regex s = Some k"
    proof (rule exec_length_unique)
      show "k \<le> length s" using Cons cs k_def by simp
      show "matches tag_regex (take k s)" unfolding matches_tag_regex using tk nomid by blast
      show "n = k" if "n \<le> length s" "matches tag_regex (take n s)" for n
      proof -
        from that(2) obtain mid' where m': "take n s = 0x3C # mid' @ [0x3E]" "0x3E \<notin> set mid'"
          unfolding matches_tag_regex by blast
        then have "mid' = mid" using take_tag_shape[of n c cs mid'] unfolding Cons mid_def by simp
        with take_tag_length[OF m'(1) that(1)] show ?thesis by (simp add: k_def)
      qed
    qed
    then show ?thesis using True Cons k_def mid_def by simp
  qed
qed

lemma strip_tags_Nil: "strip_tags [] = []"
  by (simp add: strip_tags_def exec_length_tag)

lemma strip_tags_Cons:
  "strip_tags (c # cs) =
     (if c = 0x3C \<and> 0x3E \<in> set cs
      then strip_tags (drop (Suc (length (takeWhile (\<lambda>x. x \<noteq> 0x3E) cs))) cs)
      else c # strip_tags cs)"
  by (simp add: strip_tags_def exec_length_tag)


lemma has_tag_iff:
  "has_tag s \<longleftrightarrow> (\<exists>pre post. s = pre @ 0x3C # post \<and> 0x3E \<in> set post)"
proof
  assume "has_tag s"
  then obtain i n where "matches tag_regex (take n (drop i s))"
    unfolding has_tag_def contains_match_def by blast
  then obtain mid where mid: "take n (drop i s) = 0x3C # mid @ [0x3E]"
    unfolding matches_tag_regex by blast
  have "s = take i s @ take n (drop i s) @ drop n (drop i s)"
    by (simp only: append_take_drop_id)
  with mid have "s = take i s @ 0x3C # (mid @ 0x3E # drop n (drop i s))" by simp
  moreover have "0x3E \<in> set (mid @ 0x3E # drop n (drop i s))" by simp
  ultimately show "\<exists>pre post. s = pre @ 0x3C # post \<and> 0x3E \<in> set post" by blast
next
  assume "\<exists>pre post. s = pre @ 0x3C # post \<and> 0x3E \<in> set post"
  then obtain pre post where s: "s = pre @ 0x3C # post" and "0x3E \<in> set post" by blast
  then obtain ys zs where post: "post = ys @ 0x3E # zs" and ys: "0x3E \<notin> set ys"
    by (meson split_list_first)
  have "take (length ys + 2) (drop (length pre) s) = 0x3C # ys @ [0x3E]"
    using s post by simp
  then have "matches tag_regex (take (length ys + 2) (drop (length pre) s))"
    unfolding matches_tag_regex using ys by blast
  moreover have "length pre \<in> {0..length s}" using s by simp
  moreover have "length ys + 2 \<in> {0..length s - length pre}" using s post by simp
  ultimately show "has_tag s" unfolding has_tag_def contains_match_def by blast
qed

lemma has_tag_Nil: "\<not> has_tag []"
  by (simp add: has_tag_iff)

lemma has_tag_Cons: "has_tag (c # t) \<longleftrightarrow> (c = 0x3C \<and> 0x3E \<in> set t) \<or> has_tag t"
  unfolding has_tag_iff by (auto simp: Cons_eq_append_conv)

lemma has_tag_context: "has_tag t \<Longrightarrow> has_tag (a @ t @ b)"
proof -
  assume "has_tag t"
  then obtain pre post where "t = pre @ 0x3C # post" "0x3E \<in> set post"
    unfolding has_tag_iff by blast
  then have "a @ t @ b = (a @ pre) @ 0x3C # (post @ b) \<and> 0x3E \<in> set (post @ b)" by simp
  then show ?thesis unfolding has_tag_iff by blast
qed

lemma set_strip_tags: "set (strip_tags s) \<subseteq> set s"
proof (induction s rule: length_induct)
  case (1 s)
  show ?case
  proof (cases s)
    case Nil
    then show ?thesis by (simp add: strip_tags_Nil)
  next
    case (Cons c cs)
    let ?k = "Suc (length (takeWhile (\<lambda>x. x \<noteq> 0x3E) cs))"
    have "length (drop ?k cs) < length s" "length cs < length s" using Cons by simp_all
    with 1 have "set (strip_tags (drop ?k cs)) \<subseteq> set (drop ?k cs)" "set (strip_tags cs) \<subseteq> set cs"
      by blast+
    moreover have "set (drop ?k cs) \<subseteq> set cs" by (rule set_drop_subset)
    ultimately show ?thesis unfolding Cons strip_tags_Cons by auto
  qed
qed

lemma strip_tags_no_tag: "\<not> has_tag (strip_tags s)"
proof (induction s rule: length_induct)
  case (1 s)
  show ?case
  proof (cases s)
    case Nil
    then show ?thesis by (simp add: strip_tags_Nil has_tag_Nil)
  next
    case (Cons c cs)
    let ?k = "Suc (length (takeWhile (\<lambda>x. x \<noteq> 0x3E) cs))"
    have "length (drop ?k cs) < length s" "length cs < length s" using Cons by simp_all
    with 1 have ih: "\<not> has_tag (strip_tags (drop ?k cs))" "\<not> has_tag (strip_tags cs)"
      by blast+
    show ?thesis
    proof (cases "c = 0x3C \<and> 0x3E \<in> set cs")
      case True
      then show ?thesis unfolding Cons strip_tags_Cons using ih(1) by simp
    next
      case False
      then have "\<not> (c = 0x3C \<and> 0x3E \<in> set (strip_tags cs))"
        using set_strip_tags[of cs] by blast
      with False ih(2) show ?thesis unfolding Cons strip_tags_Cons by (auto simp: has_tag_Cons)
    qed
  qed
qed

lemma strip_tags_clean: "\<not> has_tag s \<Longrightarrow> strip_tags s = s"
  by (induction s) (auto simp: strip_tags_Nil strip_tags_Cons has_tag_Cons)

lemma trim_decompose: "\<exists>a b. s = a @ trim s @ b"
proof -
  define d where "d = dropWhile is_whitespace s"
  have "s = takeWhile is_whitespace s @ d" by (simp add: d_def)
  moreover have "d = rev (dropWhile is_whitespace (rev d)) @ rev (takeWhile is_whitespace (rev d))"
    by (metis rev_append rev_rev_ident takeWhile_dropWhile_id)
  then have "d = trim s @ rev (takeWhile is_whitespace (rev d))"
    by (simp only: trim_def d_def)
  ultimately have "s = takeWhile is_whitespace s @ trim s @ rev (takeWhile is_whitespace (rev d))"
    by simp
  then show ?thesis by blast
qed

lemma trim_no_outer_whitespace: "no_outer_whitespace (trim s)"
proof (cases "trim s = []")
  case True
  then show ?thesis by (simp add: no_outer_whitespace_def)
next
  case False
  define d where "d = dropWhile is_whitespace s"
  define e where "e = dropWhile is_whitespace (rev d)"
  have t: "trim s = rev e" by (simp add: trim_def d_def e_def)
  with False have e: "e \<noteq> []" by simp
  then have "\<not> is_whitespace (hd e)" unfolding e_def by (rule hd_dropWhile)
  then have l: "\<not> is_whitespace (last (trim s))" using t e by (simp add: last_rev)
  have dd: "d = rev e @ rev (takeWhile is_whitespace (rev d))"
    unfolding e_def by (metis rev_append rev_rev_ident takeWhile_dropWhile_id)
  with e have "d \<noteq> []" by auto
  then have "\<not> is_whitespace (hd d)" unfolding d_def by (rule hd_dropWhile)
  moreover have "hd d = hd (rev e)" using dd e by (metis hd_append2 rev_is_Nil_conv)
  ultimately have "\<not> is_whitespace (hd (trim s))" using t by simp
  with l show ?thesis by (simp add: no_outer_whitespace_def)
qed

lemma trim_clean: "no_outer_whitespace s \<Longrightarrow> trim s = s"
proof (cases s)
  case Nil
  then show ?thesis by (simp add: trim_def)
next
  case (Cons c cs)
  assume "no_outer_whitespace s"
  with Cons have h: "\<not> is_whitespace (hd s)" and l: "\<not> is_whitespace (last s)"
    by (simp_all add: no_outer_whitespace_def)
  from h Cons have "dropWhile is_whitespace s = s" by simp
  moreover have "\<not> is_whitespace (hd (rev s))" using l by (simp add: hd_rev)
  then have "dropWhile is_whitespace (rev s) = rev s"
    using Cons by (cases "rev s") simp_all
  ultimately show ?thesis by (simp add: trim_def)
qed

lemma sanitize_no_tag: "\<not> has_tag (sanitize s)"
proof
  assume h: "has_tag (sanitize s)"
  obtain a b where "strip_tags s = a @ sanitize s @ b"
    using trim_decompose[of "strip_tags s"] unfolding sanitize_def by blast
  with has_tag_context[OF h, of a b] have "has_tag (strip_tags s)" by simp
  then show False using strip_tags_no_tag by blast
qed

lemma sanitize_trimmed: "no_outer_whitespace (sanitize s)"
  unfolding sanitize_def by (rule trim_no_outer_whitespace)

lemma sanitize_clean: "\<not> has_tag s \<Longrightarrow> no_outer_whitespace s \<Longrightarrow> sanitize s = s"
  using strip_tags_clean[of s] trim_clean[of s] by (simp add: sanitize_def)

lemma sanitize_idem: "sanitize (sanitize s) = sanitize s"
  by (rule sanitize_clean[OF sanitize_no_tag sanitize_trimmed])

section \<open>Sanitation removes tags and is idempotent\<close>

lemma sanitize_plain:
  assumes "0x3C \<notin> set s" and "no_outer_whitespace s"
  shows "sanitize s = s"
proof -
  have "\<not> has_tag s" using assms(1) unfolding has_tag_iff by auto
  then show ?thesis using assms(2) by (rule sanitize_clean)
qed

text \<open>
  C2: For every input string the sanitized output contains no HTML-tag-like substring (no
  substring that matches \<open>/<[^>]*>/\<close>, a \<open><\<close> through a following \<open>>\<close>); for every input
  that is already clean (no tag-like substring, no leading or trailing whitespace)
  sanitizing is a no-op; hence \<open>sanitize\<close> is idempotent.
\<close>

theorem sanitize_removes_tags_idempotent:
  "\<not> has_tag (sanitize s)
   \<and> (\<nexists>pre post. sanitize s = pre @ 0x3C # post \<and> 0x3E \<in> set post)
   \<and> (\<not> has_tag s \<and> no_outer_whitespace s \<longrightarrow> sanitize s = s)
   \<and> sanitize (sanitize s) = sanitize s"
proof -
  have "\<not> has_tag (sanitize s)" by (rule sanitize_no_tag)
  moreover from this have "\<nexists>pre post. sanitize s = pre @ 0x3C # post \<and> 0x3E \<in> set post"
    unfolding has_tag_iff .
  moreover have "\<not> has_tag s \<and> no_outer_whitespace s \<longrightarrow> sanitize s = s"
    using sanitize_clean by blast
  moreover have "sanitize (sanitize s) = sanitize s" by (rule sanitize_idem)
  ultimately show ?thesis by blast
qed

theorem sanitize_removes_tags_idempotent_witness:
  "\<not> has_tag (js ''Ann'') \<and> no_outer_whitespace (js ''Ann'')
   \<and> sanitize (js ''Ann'') = js ''Ann''
   \<and> sanitize (js '' <b>Ann</b> <<i>> '') = js ''Ann >''
   \<and> \<not> has_tag (js ''Ann >'')"
proof -
  have clean: "\<not> has_tag (js ''Ann'')" "no_outer_whitespace (js ''Ann'')"
    by (simp_all add: js_def has_tag_Cons has_tag_Nil no_outer_whitespace_def is_whitespace_def)
  have run: "sanitize (js '' <b>Ann</b> <<i>> '') = js ''Ann >''"
    by (simp add: js_def sanitize_def strip_tags_Cons strip_tags_Nil trim_def is_whitespace_def)
  from clean sanitize_removes_tags_idempotent[of "js ''Ann''"]
  have "sanitize (js ''Ann'') = js ''Ann''" by blast
  moreover from run sanitize_removes_tags_idempotent[of "js '' <b>Ann</b> <<i>> ''"]
  have "\<not> has_tag (js ''Ann >'')" by simp
  ultimately show ?thesis using clean run by blast
qed

section \<open>The steps of the handler\<close>

lemma matches_emailRegex:
  "emailRegex_test s \<longleftrightarrow>
     (\<exists>l d t. s = l @ 0x40 # d @ 0x2E # t \<and> l \<noteq> [] \<and> d \<noteq> [] \<and> t \<noteq> []
        \<and> (\<forall>c \<in> set (l @ d @ t). \<not> is_whitespace c \<and> c \<noteq> 0x40))"
proof
  assume "emailRegex_test s"
  then obtain l r1 where 1: "s = l @ r1" "l \<noteq> []" "\<forall>c \<in> set l. \<not> is_whitespace c \<and> c \<noteq> 0x40"
    and m1: "matches (Seq (Class (\<lambda>c. c = 0x40))
         (Seq (Plus (Class (\<lambda>c. \<not> is_whitespace c \<and> c \<noteq> 0x40)))
           (Seq (Class (\<lambda>c. c = 0x2E))
             (Plus (Class (\<lambda>c. \<not> is_whitespace c \<and> c \<noteq> 0x40)))))) r1"
    unfolding emailRegex_test_def emailRegex_def
    by (subst (asm) matches_Seq_iff) (auto simp: matches_Plus_Class)
  from m1 obtain r2 where 2: "r1 = 0x40 # r2"
    and m2: "matches (Seq (Plus (Class (\<lambda>c. \<not> is_whitespace c \<and> c \<noteq> 0x40)))
           (Seq (Class (\<lambda>c. c = 0x2E))
             (Plus (Class (\<lambda>c. \<not> is_whitespace c \<and> c \<noteq> 0x40))))) r2"
    by (subst (asm) matches_Seq_iff) (auto simp: matches_Class_iff)
  from m2 obtain d r3 where 3: "r2 = d @ r3" "d \<noteq> []" "\<forall>c \<in> set d. \<not> is_whitespace c \<and> c \<noteq> 0x40"
    and m3: "matches (Seq (Class (\<lambda>c. c = 0x2E))
             (Plus (Class (\<lambda>c. \<not> is_whitespace c \<and> c \<noteq> 0x40)))) r3"
    by (subst (asm) matches_Seq_iff) (auto simp: matches_Plus_Class)
  from m3 obtain t where 4: "r3 = 0x2E # t" "t \<noteq> []" "\<forall>c \<in> set t. \<not> is_whitespace c \<and> c \<noteq> 0x40"
    by (subst (asm) matches_Seq_iff) (auto simp: matches_Class_iff matches_Plus_Class)
  from 1 2 3 4 have "s = l @ 0x40 # d @ 0x2E # t \<and> l \<noteq> [] \<and> d \<noteq> [] \<and> t \<noteq> []
        \<and> (\<forall>c \<in> set (l @ d @ t). \<not> is_whitespace c \<and> c \<noteq> 0x40)"
    by auto
  then show "\<exists>l d t. s = l @ 0x40 # d @ 0x2E # t \<and> l \<noteq> [] \<and> d \<noteq> [] \<and> t \<noteq> []
        \<and> (\<forall>c \<in> set (l @ d @ t). \<not> is_whitespace c \<and> c \<noteq> 0x40)"
    by blast
next
  assume "\<exists>l d t. s = l @ 0x40 # d @ 0x2E # t \<and> l \<noteq> [] \<and> d \<noteq> [] \<and> t \<noteq> []
        \<and> (\<forall>c \<in> set (l @ d @ t). \<not> is_whitespace c \<and> c \<noteq> 0x40)"
  then obtain l d t where s: "s = l @ 0x40 # d @ 0x2E # t" and ne: "l \<noteq> []" "d \<noteq> []" "t \<noteq> []"
    and cls: "\<forall>c \<in> set (l @ d @ t). \<not> is_whitespace c \<and> c \<noteq> 0x40"
    by blast
  let ?cls = "Class (\<lambda>c. \<not> is_whitespace c \<and> c \<noteq> 0x40)"
  have t: "matches (Plus ?cls) t" and d: "matches (Plus ?cls) d" and l: "matches (Plus ?cls) l"
    using ne cls by (simp_all add: matches_Plus_Class)
  have "matches (Seq (Class (\<lambda>c. c = 0x2E)) (Plus ?cls)) ([0x2E] @ t)"
    unfolding matches_Seq_iff using t by (auto simp: matches_Class_iff)
  then have "matches (Seq (Plus ?cls) (Seq (Class (\<lambda>c. c = 0x2E)) (Plus ?cls))) (d @ [0x2E] @ t)"
    using d by (subst matches_Seq_iff) blast
  moreover have "matches (Class (\<lambda>c. c = 0x40)) [0x40]" by (simp add: matches_Class_iff)
  ultimately have "matches (Seq (Class (\<lambda>c. c = 0x40))
      (Seq (Plus ?cls) (Seq (Class (\<lambda>c. c = 0x2E)) (Plus ?cls)))) ([0x40] @ d @ [0x2E] @ t)"
    by (subst matches_Seq_iff) blast
  then have "matches emailRegex (l @ [0x40] @ d @ [0x2E] @ t)"
    unfolding emailRegex_def using l by (subst matches_Seq_iff) blast
  then show "emailRegex_test s" by (simp add: emailRegex_test_def s)
qed

lemma tag_prefix_unique:
  assumes "n \<le> length s" and "m \<le> length s"
    and "matches tag_regex (take n s)" and "matches tag_regex (take m s)"
  shows "n = m"
proof -
  from assms(3) obtain mid where n: "take n s = 0x3C # mid @ [0x3E]" "0x3E \<notin> set mid"
    unfolding matches_tag_regex by blast
  from assms(4) obtain mid' where m: "take m s = 0x3C # mid' @ [0x3E]" "0x3E \<notin> set mid'"
    unfolding matches_tag_regex by blast
  from n(1) obtain c cs where s: "s = c # cs" by (cases s) auto
  from take_tag_shape[of n c cs mid] take_tag_shape[of m c cs mid'] n m s
  have "mid = mid'" by simp
  with take_tag_length[OF n(1) assms(1)] take_tag_length[OF m(1) assms(2)] show ?thesis by simp
qed

lemma newline_prefix_unique:
  assumes "n \<le> length s" and "m \<le> length s"
    and "matches newline_regex (take n s)" and "matches newline_regex (take m s)"
  shows "n = m"
proof -
  have "length (take n s) = 1" "length (take m s) = 1"
    using assms(3,4) unfolding newline_regex_def matches_Class_iff by auto
  with assms(1,2) show ?thesis by simp
qed

lemma exec_length_newline:
  "exec_length newline_regex s =
     (case s of [] \<Rightarrow> None | c # cs \<Rightarrow> if c = 0x0A then Some 1 else None)"
proof (cases s)
  case Nil
  then show ?thesis by (simp add: exec_length_None newline_regex_def matches_Class_iff)
next
  case (Cons c cs)
  show ?thesis
  proof (cases "c = 0x0A")
    case False
    have "\<not> matches newline_regex (take n s)" for n
      using False Cons unfolding newline_regex_def matches_Class_iff
      by (cases n) auto
    then show ?thesis using False Cons by (simp add: exec_length_None)
  next
    case True
    have "exec_length newline_regex s = Some 1"
    proof (rule exec_length_unique)
      show "1 \<le> length s" using Cons by simp
      show "matches newline_regex (take 1 s)"
        using True Cons by (simp add: newline_regex_def matches_Class_iff)
      show "n = 1" if "n \<le> length s" "matches newline_regex (take n s)" for n
      proof -
        have "length (take n s) = 1"
          using that(2) unfolding newline_regex_def matches_Class_iff by auto
        with that(1) show ?thesis by simp
      qed
    qed
    then show ?thesis using True Cons by simp
  qed
qed

lemma message_html_Nil: "message_html [] = []"
  by (simp add: message_html_def exec_length_newline)

lemma message_html_Cons:
  "message_html (c # cs) = (if c = 0x0A then js ''<br>'' else [c]) @ message_html cs"
  by (simp add: message_html_def exec_length_newline)

lemma message_html_concat:
  "message_html m = concat (map (\<lambda>c. if c = 0x0A then js ''<br>'' else [c]) m)"
  by (induction m) (simp_all add: message_html_Nil message_html_Cons)

lemma message_html_no_newline: "0x0A \<notin> set (message_html m)"
  by (induction m) (simp_all add: message_html_Nil message_html_Cons js_def)

lemma split_not_Nil: "split s sep \<noteq> []"
  by (induction s) (auto split: list.splits)

lemma split_no_separator: "seg \<in> set (split s sep) \<Longrightarrow> sep \<notin> set seg"
proof (induction s arbitrary: seg)
  case Nil
  then show ?case by simp
next
  case (Cons c cs)
  show ?case
  proof (cases "c = sep")
    case True
    with Cons show ?thesis by auto
  next
    case False
    obtain x xs where x: "split cs sep = x # xs" using split_not_Nil[of cs sep]
      by (cases "split cs sep") auto
    with Cons False show ?thesis by auto
  qed
qed

lemma sanitize_value_Inr: "sanitize_value v = Inr x \<Longrightarrow> \<exists>s. v = JStr s \<and> x = sanitize s"
  by (cases v) auto

lemma sanitize_field_Inr:
  "sanitize_field contactData key = Inr x \<Longrightarrow>
     \<exists>s. get_field contactData key = Inr (JStr s) \<and> x = sanitize s"
  by (auto simp: sanitize_field_def split: sum.splits dest: sanitize_value_Inr)

lemma sanitize_inputs_Inr:
  assumes "sanitize_inputs contactData = Inr cd"
  shows "\<exists>n e p m.
     get_field contactData (js ''name'') = Inr (JStr n)
     \<and> get_field contactData (js ''email'') = Inr (JStr e)
     \<and> get_field contactData (js ''phone'') = Inr (JStr p)
     \<and> get_field contactData (js ''message'') = Inr (JStr m)
     \<and> cd = \<lparr>name = sanitize n, email = sanitize e, phone = sanitize p, message = sanitize m\<rparr>"
proof -
  from assms obtain a b c d where
    "sanitize_field contactData (js ''name'') = Inr a"
    "sanitize_field contactData (js ''email'') = Inr b"
    "sanitize_field contactData (js ''phone'') = Inr c"
    "sanitize_field contactData (js ''message'') = Inr d"
    "cd = \<lparr>name = a, email = b, phone = c, message = d\<rparr>"
    unfolding sanitize_inputs_def by (auto split: sum.splits)
  then show ?thesis by (metis sanitize_field_Inr)
qed

lemma sanitize_inputs_sanitized:
  assumes "sanitize_inputs contactData = Inr cd"
  shows "\<not> has_tag (name cd) \<and> no_outer_whitespace (name cd)
     \<and> \<not> has_tag (email cd) \<and> no_outer_whitespace (email cd)
     \<and> \<not> has_tag (phone cd) \<and> no_outer_whitespace (phone cd)
     \<and> \<not> has_tag (message cd) \<and> no_outer_whitespace (message cd)"
proof -
  from sanitize_inputs_Inr[OF assms] obtain n e p m where
    "cd = \<lparr>name = sanitize n, email = sanitize e, phone = sanitize p, message = sanitize m\<rparr>"
    by blast
  then show ?thesis by (simp add: sanitize_no_tag sanitize_trimmed)
qed

lemma handler_forbidden:
  assumes "origin_forbidden env req"
  shows "onRequestPost env req fetch =
     \<lparr>response = \<lparr>status = 403, body = js ''Forbidden'', headers = []\<rparr>,
      fetched = None, logged = None\<rparr>"
  using assms by (simp add: onRequestPost_def try_block_def)

lemma handler_parse_error:
  assumes "\<not> origin_forbidden env req" and "read_contactData req = Inl e"
  shows "onRequestPost env req fetch =
     \<lparr>response = failure_response, fetched = None, logged = Some e\<rparr>"
  using assms by (simp add: onRequestPost_def try_block_def)

lemma handler_sanitize_error:
  assumes "\<not> origin_forbidden env req" and "read_contactData req = Inr parsed"
    and "sanitize_inputs parsed = Inl e"
  shows "onRequestPost env req fetch =
     \<lparr>response = failure_response, fetched = None, logged = Some e\<rparr>"
  using assms by (simp add: onRequestPost_def try_block_def)

lemma handler_rejected:
  assumes "\<not> origin_forbidden env req" and "read_contactData req = Inr parsed"
    and "sanitize_inputs parsed = Inr cd" and "validate cd = Some rejection"
  shows "onRequestPost env req fetch =
     \<lparr>response = rejection, fetched = None, logged = None\<rparr>"
  using assms by (simp add: onRequestPost_def try_block_def)

lemma handler_dispatch:
  assumes "\<not> origin_forbidden env req" and "read_contactData req = Inr parsed"
    and "sanitize_inputs parsed = Inr cd" and "validate cd = None"
  shows "onRequestPost env req fetch =
     (case fetch (email_request env req cd) of
        Inl e \<Rightarrow>
          \<lparr>response = failure_response, fetched = Some (email_request env req cd),
           logged = Some e\<rparr>
      | Inr emailResponse \<Rightarrow>
          if ok emailResponse
          then \<lparr>response = success_response, fetched = Some (email_request env req cd),
                logged = None\<rparr>
          else \<lparr>response = failure_response, fetched = Some (email_request env req cd),
                logged = Some (Error (js ''Failed to send email''))\<rparr>)"
  using assms by (simp add: onRequestPost_def try_block_def Let_def split: sum.splits)

lemma handler_fetched:
  assumes "fetched (onRequestPost env req fetch) = Some sent"
  shows "\<exists>parsed cd. \<not> origin_forbidden env req \<and> read_contactData req = Inr parsed
     \<and> sanitize_inputs parsed = Inr cd \<and> validate cd = None \<and> sent = email_request env req cd"
  using assms
  by (auto simp: onRequestPost_def try_block_def Let_def
           split: if_splits sum.splits option.splits)

lemma validate_status: "validate cd = Some rejection \<Longrightarrow> status rejection = 400"
  by (auto simp: validate_def split: if_splits)

lemma handler_status_403:
  "status (response (onRequestPost env req fetch)) = 403 \<longleftrightarrow> origin_forbidden env req"
  by (auto simp: onRequestPost_def try_block_def Let_def failure_response_def
                 success_response_def
           split: sum.splits option.splits dest: validate_status)

lemma strip_tags_append_plain: "0x3C \<notin> set a \<Longrightarrow> strip_tags (a @ s) = a @ strip_tags s"
  by (induction a) (auto simp: strip_tags_Cons)

lemma get_field_sanitize_inputs:
  assumes "get_field parsed (js ''name'') = Inr (JStr n)"
    and "get_field parsed (js ''email'') = Inr (JStr e)"
    and "get_field parsed (js ''phone'') = Inr (JStr p)"
    and "get_field parsed (js ''message'') = Inr (JStr m)"
  shows "sanitize_inputs parsed =
     Inr \<lparr>name = sanitize n, email = sanitize e, phone = sanitize p, message = sanitize m\<rparr>"
  using assms by (simp add: sanitize_inputs_def sanitize_field_def)

lemma emailRegex_needs_at: "emailRegex_test s \<Longrightarrow> 0x40 \<in> set s"
  unfolding matches_emailRegex by auto

section \<open>Running the examples\<close>

lemma split_site: "split (js ''https://site.example'') 0x2C = [js ''https://site.example'']"
  by (simp add: js_def)

lemma json_post_origin: "headers_get (json_post origin parsed) (js ''Origin'') = origin"
  by (simp add: json_post_def)

lemma form_post_origin: "headers_get (form_post origin form) (js ''Origin'') = origin"
  by (simp add: form_post_def)

lemma json_post_no_origin: "\<not> origin_forbidden env (json_post None parsed)"
  by (simp add: origin_forbidden_def json_post_origin)

lemma form_post_no_origin: "\<not> origin_forbidden env (form_post None form)"
  by (simp add: origin_forbidden_def form_post_origin)

lemma json_post_read: "read_contactData (json_post origin parsed) = Inr parsed"
proof -
  have "headers_get (json_post origin parsed) (js ''content-type'') = Some (js ''application/json'')"
    by (simp add: json_post_def js_def)
  moreover have "str_includes (js ''application/json'') (js ''application/json'')"
    by (cases "js ''application/json''") simp_all
  ultimately show ?thesis by (simp add: read_contactData_def json_post_def)
qed

lemma form_post_read:
  "read_contactData (form_post origin form) =
     Inr (JObj [(js ''name'', form_field form (js ''name'')),
                (js ''email'', form_field form (js ''email'')),
                (js ''phone'', form_field form (js ''phone'')),
                (js ''message'', form_field form (js ''message''))])"
proof -
  have "headers_get (form_post origin form) (js ''content-type'')
          = Some (js ''application/x-www-form-urlencoded'')"
    by (simp add: form_post_def js_def)
  moreover have "\<not> str_includes (js ''application/x-www-form-urlencoded'') (js ''application/json'')"
    by (simp add: js_def)
  ultimately show ?thesis by (simp add: read_contactData_def form_post_def)
qed

lemma contact_json_fields:
  "get_field (contact_json n e p m) (js ''name'') = Inr (JStr n)"
  "get_field (contact_json n e p m) (js ''email'') = Inr (JStr e)"
  "get_field (contact_json n e p m) (js ''phone'') = Inr (JStr p)"
  "get_field (contact_json n e p m) (js ''message'') = Inr (JStr m)"
  by (simp_all add: contact_json_def js_def)

lemma contact_json_sanitize:
  "sanitize_inputs (contact_json n e p m) =
     Inr \<lparr>name = sanitize n, email = sanitize e, phone = sanitize p, message = sanitize m\<rparr>"
  by (rule get_field_sanitize_inputs) (rule contact_json_fields)+

lemma sanitize_examples:
  "sanitize (js ''Ann'') = js ''Ann''"
  "sanitize (js ''a@b.co'') = js ''a@b.co''"
  "sanitize (js ''not-an-email'') = js ''not-an-email''"
  "sanitize (js ''hi'') = js ''hi''"
  "sanitize [] = []"
  by (rule sanitize_plain; simp add: js_def no_outer_whitespace_def is_whitespace_def)+

lemma sanitize_replicate: "sanitize (replicate n 0x61) = replicate n 0x61"
  by (rule sanitize_plain) (auto simp: no_outer_whitespace_def is_whitespace_def)

lemma sanitize_replicate_tag: "sanitize (replicate n 0x61 @ js ''<b>'') = replicate n 0x61"
proof -
  have "strip_tags (js ''<b>'') = []"
    by (simp add: js_def strip_tags_Cons strip_tags_Nil)
  then have "strip_tags (replicate n 0x61 @ js ''<b>'') = replicate n 0x61"
    by (simp add: strip_tags_append_plain)
  moreover have "trim (replicate n 0x61) = replicate n 0x61"
    by (rule trim_clean) (auto simp: no_outer_whitespace_def is_whitespace_def)
  ultimately show ?thesis by (simp add: sanitize_def)
qed

lemma email_examples:
  "emailRegex_test (js ''a@b.co'')"
  "\<not> emailRegex_test (js ''not-an-email'')"
proof -
  have "js ''a@b.co'' = js ''a'' @ 0x40 # js ''b'' @ 0x2E # js ''co''
      \<and> js ''a'' \<noteq> [] \<and> js ''b'' \<noteq> [] \<and> js ''co'' \<noteq> []
      \<and> (\<forall>c \<in> set (js ''a'' @ js ''b'' @ js ''co''). \<not> is_whitespace c \<and> c \<noteq> 0x40)"
    by (simp add: js_def is_whitespace_def)
  then show "emailRegex_test (js ''a@b.co'')" unfolding matches_emailRegex by blast
  have "0x40 \<notin> set (js ''not-an-email'')" by (simp add: js_def)
  then show "\<not> emailRegex_test (js ''not-an-email'')" using emailRegex_needs_at by blast
qed

section \<open>Validation\<close>

lemma body_literals_differ:
  "js ''Input too long'' \<noteq> js ''Invalid email format''"
  "body success_response \<noteq> js ''Invalid email format''"
  "body failure_response \<noteq> js ''Invalid email format''"
  by (simp_all add: js_def success_response_def failure_response_def)

text \<open>
  C5: The sanitized email must match the shape: one or more non-space-non-@ characters, a
  literal @, one or more non-space-non-@ characters, a literal dot, one or more
  non-space-non-@ characters.  A submission that reaches this check (allowed origin, parsed
  body, string fields, none of the required fields empty) and whose sanitized email does not
  have the shape gets 400 with the body "Invalid email format" and nothing is sent; one
  whose email has the shape does not get that response.  "not-an-email" fails the shape
  check, "a@b.co" passes it.
\<close>

theorem email_shape_validation:
  "(emailRegex_test s \<longleftrightarrow>
      (\<exists>l d t. s = l @ 0x40 # d @ 0x2E # t \<and> l \<noteq> [] \<and> d \<noteq> [] \<and> t \<noteq> []
         \<and> (\<forall>c \<in> set (l @ d @ t). \<not> is_whitespace c \<and> c \<noteq> 0x40)))
   \<and> (\<not> origin_forbidden env req \<and> read_contactData req = Inr parsed
        \<and> sanitize_inputs parsed = Inr cd
        \<and> name cd \<noteq> [] \<and> email cd \<noteq> [] \<and> message cd \<noteq> [] \<longrightarrow>
        (if emailRegex_test (email cd)
         then body (response (onRequestPost env req fetch)) \<noteq> js ''Invalid email format''
         else onRequestPost env req fetch =
                \<lparr>response = \<lparr>status = 400, body = js ''Invalid email format'', headers = []\<rparr>,
                 fetched = None, logged = None\<rparr>))
   \<and> \<not> emailRegex_test (js ''not-an-email'') \<and> emailRegex_test (js ''a@b.co'')"
proof -
  have handler: "if emailRegex_test (email cd)
         then body (response (onRequestPost env req fetch)) \<noteq> js ''Invalid email format''
         else onRequestPost env req fetch =
                \<lparr>response = \<lparr>status = 400, body = js ''Invalid email format'', headers = []\<rparr>,
                 fetched = None, logged = None\<rparr>"
    if reach: "\<not> origin_forbidden env req" "read_contactData req = Inr parsed"
      "sanitize_inputs parsed = Inr cd"
      and filled: "name cd \<noteq> []" "email cd \<noteq> []" "message cd \<noteq> []"
  proof (cases "emailRegex_test (email cd)")
    case False
    with filled have "validate cd = Some \<lparr>status = 400, body = js ''Invalid email format'', headers = []\<rparr>"
      by (simp add: validate_def)
    from handler_rejected[OF reach this] False show ?thesis by simp
  next
    case True
    show ?thesis
    proof (cases "validate cd")
      case None
      from handler_dispatch[OF reach None, of fetch] True show ?thesis
        by (auto simp: body_literals_differ split: sum.splits)
    next
      case (Some rejection)
      with True filled have "rejection = \<lparr>status = 400, body = js ''Input too long'', headers = []\<rparr>"
        by (auto simp: validate_def split: if_splits)
      with handler_rejected[OF reach Some, of fetch] True show ?thesis
        by (simp add: body_literals_differ)
    qed
  qed
  show ?thesis
    using matches_emailRegex[of s] handler email_examples by blast
qed

theorem email_shape_validation_witness:
  "onRequestPost site_env
       (json_post None (contact_json (js ''Ann'') (js ''not-an-email'') [] (js ''hi'')))
       provider_accepts
     = \<lparr>response = \<lparr>status = 400, body = js ''Invalid email format'', headers = []\<rparr>,
        fetched = None, logged = None\<rparr>
   \<and> body (response (onRequestPost site_env
       (json_post None (contact_json (js ''Ann'') (js ''a@b.co'') [] (js ''hi'')))
       provider_accepts)) \<noteq> js ''Invalid email format''"
proof -
  let ?bad = "json_post None (contact_json (js ''Ann'') (js ''not-an-email'') [] (js ''hi''))"
  let ?good = "json_post None (contact_json (js ''Ann'') (js ''a@b.co'') [] (js ''hi''))"
  have filled: "js ''Ann'' \<noteq> []" "js ''not-an-email'' \<noteq> []" "js ''a@b.co'' \<noteq> []" "js ''hi'' \<noteq> []"
    by (simp_all add: js_def)
  from email_shape_validation[of "js ''not-an-email''" site_env ?bad
      "contact_json (js ''Ann'') (js ''not-an-email'') [] (js ''hi'')"
      "\<lparr>name = js ''Ann'', email = js ''not-an-email'', phone = [], message = js ''hi''\<rparr>"
      provider_accepts]
  have "onRequestPost site_env ?bad provider_accepts
     = \<lparr>response = \<lparr>status = 400, body = js ''Invalid email format'', headers = []\<rparr>,
        fetched = None, logged = None\<rparr>"
    using filled
    by (simp add: json_post_no_origin json_post_read contact_json_sanitize sanitize_examples
        email_examples)
  moreover from email_shape_validation[of "js ''a@b.co''" site_env ?good
      "contact_json (js ''Ann'') (js ''a@b.co'') [] (js ''hi'')"
      "\<lparr>name = js ''Ann'', email = js ''a@b.co'', phone = [], message = js ''hi''\<rparr>"
      provider_accepts]
  have "body (response (onRequestPost site_env ?good provider_accepts))
      \<noteq> js ''Invalid email format''"
    using filled
    by (simp add: json_post_no_origin json_post_read contact_json_sanitize sanitize_examples
        email_examples)
  ultimately show ?thesis by blast
qed

text \<open>
  C6: Length limits are checked on the post-sanitation values.  For a submission that
  reaches this check (allowed origin, parsed body whose four fields are strings, required
  fields not empty after sanitation, email of the right shape): if the sanitized name
  exceeds 100 characters, the sanitized email 255 or the sanitized message 5000, the handler
  returns 400 with the body "Input too long" and sends nothing; otherwise it goes on to
  send the email.  A sanitized message of length 5001 is rejected, one of length 5000 is
  accepted.
\<close>

theorem length_limits:
  assumes "\<not> origin_forbidden env req" and "read_contactData req = Inr parsed"
    and "get_field parsed (js ''name'') = Inr (JStr n)"
    and "get_field parsed (js ''email'') = Inr (JStr e)"
    and "get_field parsed (js ''phone'') = Inr (JStr p)"
    and "get_field parsed (js ''message'') = Inr (JStr m)"
    and "sanitize n \<noteq> []" and "sanitize e \<noteq> []" and "sanitize m \<noteq> []"
    and "emailRegex_test (sanitize e)"
  shows "if length (sanitize n) > 100 \<or> length (sanitize e) > 255 \<or> length (sanitize m) > 5000
     then onRequestPost env req fetch =
            \<lparr>response = \<lparr>status = 400, body = js ''Input too long'', headers = []\<rparr>,
             fetched = None, logged = None\<rparr>
     else fetched (onRequestPost env req fetch) \<noteq> None
          \<and> status (response (onRequestPost env req fetch)) \<noteq> 400"
proof -
  let ?cd = "\<lparr>name = sanitize n, email = sanitize e, phone = sanitize p, message = sanitize m\<rparr>"
  have cd: "sanitize_inputs parsed = Inr ?cd"
    using assms(3-6) by (rule get_field_sanitize_inputs)
  show ?thesis
  proof (cases "length (sanitize n) > 100 \<or> length (sanitize e) > 255 \<or> length (sanitize m) > 5000")
    case True
    with assms(7-10) have "validate ?cd = Some \<lparr>status = 400, body = js ''Input too long'', headers = []\<rparr>"
      by (simp add: validate_def)
    from handler_rejected[OF assms(1,2) cd this] True show ?thesis by simp
  next
    case False
    with assms(7-10) have "validate ?cd = None" by (simp add: validate_def)
    from handler_dispatch[OF assms(1,2) cd this, of fetch] False show ?thesis
      by (auto simp: success_response_def failure_response_def split: sum.splits)
  qed
qed

theorem length_limits_witness:
  "onRequestPost site_env
       (json_post None (contact_json (js ''Ann'') (js ''a@b.co'') [] (replicate 5001 0x61)))
       provider_accepts
     = \<lparr>response = \<lparr>status = 400, body = js ''Input too long'', headers = []\<rparr>,
        fetched = None, logged = None\<rparr>
   \<and> fetched (onRequestPost site_env
       (json_post None (contact_json (js ''Ann'') (js ''a@b.co'') [] (replicate 5000 0x61)))
       provider_accepts) \<noteq> None
   \<and> fetched (onRequestPost site_env
       (json_post None
          (contact_json (js ''Ann'') (js ''a@b.co'') [] (replicate 5000 0x61 @ js ''<b>'')))
       provider_accepts) \<noteq> None"
proof -
  have filled: "js ''Ann'' \<noteq> []" "js ''a@b.co'' \<noteq> []" by (simp_all add: js_def)
  have short: "length (js ''Ann'') = 3" "length (js ''a@b.co'') = 6" by (simp_all add: js_def)
  note facts = json_post_no_origin json_post_read contact_json_fields sanitize_examples
    sanitize_replicate sanitize_replicate_tag email_examples filled short
  from length_limits[of site_env
      "json_post None (contact_json (js ''Ann'') (js ''a@b.co'') [] (replicate 5001 0x61))"
      "contact_json (js ''Ann'') (js ''a@b.co'') [] (replicate 5001 0x61)"
      "js ''Ann''" "js ''a@b.co''" "[]" "replicate 5001 0x61" provider_accepts]
  have 1: "onRequestPost site_env
       (json_post None (contact_json (js ''Ann'') (js ''a@b.co'') [] (replicate 5001 0x61)))
       provider_accepts
     = \<lparr>response = \<lparr>status = 400, body = js ''Input too long'', headers = []\<rparr>,
        fetched = None, logged = None\<rparr>"
    by (simp add: facts)
  from length_limits[of site_env
      "json_post None (contact_json (js ''Ann'') (js ''a@b.co'') [] (replicate 5000 0x61))"
      "contact_json (js ''Ann'') (js ''a@b.co'') [] (replicate 5000 0x61)"
      "js ''Ann''" "js ''a@b.co''" "[]" "replicate 5000 0x61" provider_accepts]
  have 2: "fetched (onRequestPost site_env
       (json_post None (contact_json (js ''Ann'') (js ''a@b.co'') [] (replicate 5000 0x61)))
       provider_accepts) \<noteq> None"
    by (simp add: facts)
  from length_limits[of site_env
      "json_post None
         (contact_json (js ''Ann'') (js ''a@b.co'') [] (replicate 5000 0x61 @ js ''<b>''))"
      "contact_json (js ''Ann'') (js ''a@b.co'') [] (replicate 5000 0x61 @ js ''<b>'')"
      "js ''Ann''" "js ''a@b.co''" "[]" "replicate 5000 0x61 @ js ''<b>''" provider_accepts]
  have 3: "fetched (onRequestPost site_env
       (json_post None
          (contact_json (js ''Ann'') (js ''a@b.co'') [] (replicate 5000 0x61 @ js ''<b>'')))
       provider_accepts) \<noteq> None"
    by (simp add: facts)
  from 1 2 3 show ?thesis by blast
qed

section \<open>Dispatch and outcome\<close>

text \<open>
  C9: Whenever the handler issues the outbound provider request, the fields embedded in its
  payload satisfy every validation rule: the name is non-empty and at most 100 characters,
  the email is non-empty, matches the email shape and is at most 255 characters, the message
  is non-empty and at most 5000 characters, and none of name, email, phone and message
  contains an HTML-tag-like substring or leading or trailing whitespace.
\<close>

theorem outbound_fields_valid:
  assumes "fetched (onRequestPost env req fetch) = Some sent"
  shows "\<exists>cd. sent = email_request env req cd
     \<and> subject (payload sent) = js ''Contact Form: '' @ name cd
     \<and> reply_to (payload sent) = email cd
     \<and> html (payload sent) = html_body req cd
     \<and> name cd \<noteq> [] \<and> length (name cd) \<le> 100
     \<and> email cd \<noteq> [] \<and> emailRegex_test (email cd) \<and> length (email cd) \<le> 255
     \<and> message cd \<noteq> [] \<and> length (message cd) \<le> 5000
     \<and> \<not> has_tag (name cd) \<and> no_outer_whitespace (name cd)
     \<and> \<not> has_tag (email cd) \<and> no_outer_whitespace (email cd)
     \<and> \<not> has_tag (phone cd) \<and> no_outer_whitespace (phone cd)
     \<and> \<not> has_tag (message cd) \<and> no_outer_whitespace (message cd)"
proof -
  from handler_fetched[OF assms] obtain parsed cd where
    cd: "sanitize_inputs parsed = Inr cd" and ok: "validate cd = None"
    and sent: "sent = email_request env req cd"
    by blast
  from ok have "name cd \<noteq> [] \<and> length (name cd) \<le> 100
     \<and> email cd \<noteq> [] \<and> emailRegex_test (email cd) \<and> length (email cd) \<le> 255
     \<and> message cd \<noteq> [] \<and> length (message cd) \<le> 5000"
    by (auto simp: validate_def split: if_splits)
  moreover note sanitize_inputs_sanitized[OF cd]
  moreover have "subject (payload sent) = js ''Contact Form: '' @ name cd"
    "reply_to (payload sent) = email cd" "html (payload sent) = html_body req cd"
    by (simp_all add: sent email_request_def)
  ultimately show ?thesis using sent by blast
qed

theorem outbound_fields_valid_witness:
  "fetched (onRequestPost site_env
       (json_post None
          (contact_json (js '' <b>Ann</b> <<i>> '') (js ''a@b.co'') [] (js ''hi'')))
       provider_accepts) \<noteq> None
   \<and> (\<exists>cd. the (fetched (onRequestPost site_env
       (json_post None
          (contact_json (js '' <b>Ann</b> <<i>> '') (js ''a@b.co'') [] (js ''hi'')))
       provider_accepts))
         = email_request site_env
             (json_post None
                (contact_json (js '' <b>Ann</b> <<i>> '') (js ''a@b.co'') [] (js ''hi''))) cd
       \<and> name cd \<noteq> [] \<and> \<not> has_tag (name cd) \<and> no_outer_whitespace (name cd)
       \<and> emailRegex_test (email cd) \<and> length (message cd) \<le> 5000)"
proof -
  let ?req = "json_post None
     (contact_json (js '' <b>Ann</b> <<i>> '') (js ''a@b.co'') [] (js ''hi''))"
  let ?cd = "\<lparr>name = js ''Ann >'', email = js ''a@b.co'', phone = [], message = js ''hi''\<rparr>"
  have name: "sanitize (js '' <b>Ann</b> <<i>> '') = js ''Ann >''"
    by (simp add: js_def sanitize_def strip_tags_Cons strip_tags_Nil trim_def is_whitespace_def)
  have cd: "sanitize_inputs (contact_json (js '' <b>Ann</b> <<i>> '') (js ''a@b.co'') [] (js ''hi''))
      = Inr ?cd"
    by (simp add: contact_json_sanitize name sanitize_examples)
  have "validate ?cd = None"
    by (simp add: validate_def email_examples) (simp add: js_def)
  from handler_dispatch[OF json_post_no_origin json_post_read cd this, of site_env provider_accepts]
  have sent: "fetched (onRequestPost site_env ?req provider_accepts)
      = Some (email_request site_env ?req ?cd)"
    by (simp add: provider_accepts_def)
  from outbound_fields_valid[OF sent] sent show ?thesis by auto
qed

text \<open>
  C4: For every well-formed submission that passes all validation: if the provider responds
  with a success status the handler returns exactly
  \<open>{"success":true,"message":"Email sent successfully"}\<close> with status 200; and for every
  exception raised in the \<open>try\<close> block (an error of the body parser, a field that cannot be
  sanitized, a failed call to the provider, a provider response that is not a success) the
  handler returns exactly \<open>{"success":false,"message":"Failed to send email"}\<close> with status
  500, whatever the exception was: the response carries nothing of it.
\<close>

theorem success_and_failure_responses:
  \<open>(\<not> origin_forbidden env req \<and> read_contactData req = Inr parsed
       \<and> sanitize_inputs parsed = Inr cd \<and> validate cd = None
       \<and> fetch (email_request env req cd) = Inr emailResponse \<and> ok emailResponse \<longrightarrow>
      response (onRequestPost env req fetch) =
        \<lparr>status = 200,
         body = js ''{"success":true,"message":"Email sent successfully"}'',
         headers = [(js ''Content-Type'', js ''application/json'')]\<rparr>)
   \<and> (try_block env req fetch = (sent, Inl thrown) \<longrightarrow>
      response (onRequestPost env req fetch) =
        \<lparr>status = 500,
         body = js ''{"success":false,"message":"Failed to send email"}'',
         headers = [(js ''Content-Type'', js ''application/json'')]\<rparr>
      \<and> logged (onRequestPost env req fetch) = Some thrown)
   \<and> (\<not> origin_forbidden env req \<and> read_contactData req = Inl thrown \<longrightarrow>
        try_block env req fetch = (None, Inl thrown))
   \<and> (\<not> origin_forbidden env req \<and> read_contactData req = Inr parsed
        \<and> sanitize_inputs parsed = Inl thrown \<longrightarrow>
        try_block env req fetch = (None, Inl thrown))
   \<and> (\<not> origin_forbidden env req \<and> read_contactData req = Inr parsed
        \<and> sanitize_inputs parsed = Inr cd \<and> validate cd = None
        \<and> fetch (email_request env req cd) = Inl thrown \<longrightarrow>
        try_block env req fetch = (Some (email_request env req cd), Inl thrown))
   \<and> (\<not> origin_forbidden env req \<and> read_contactData req = Inr parsed
        \<and> sanitize_inputs parsed = Inr cd \<and> validate cd = None
        \<and> fetch (email_request env req cd) = Inr emailResponse \<and> \<not> ok emailResponse \<longrightarrow>
        try_block env req fetch =
          (Some (email_request env req cd), Inl (Error (js ''Failed to send email''))))\<close>
  by (simp add: onRequestPost_def try_block_def Let_def success_response_def
      failure_response_def)

theorem success_and_failure_responses_witness:
  \<open>response (onRequestPost site_env
       (json_post None (contact_json (js ''Ann'') (js ''a@b.co'') [] (js ''hi'')))
       provider_accepts)
     = \<lparr>status = 200,
        body = js ''{"success":true,"message":"Email sent successfully"}'',
        headers = [(js ''Content-Type'', js ''application/json'')]\<rparr>
   \<and> response (onRequestPost site_env
       (json_post None (contact_json (js ''Ann'') (js ''a@b.co'') [] (js ''hi'')))
       provider_refuses)
     = \<lparr>status = 500,
        body = js ''{"success":false,"message":"Failed to send email"}'',
        headers = [(js ''Content-Type'', js ''application/json'')]\<rparr>
   \<and> response (onRequestPost site_env
       (json_post None (contact_json (js ''Ann'') (js ''a@b.co'') [] (js ''hi'')))
       provider_unreachable)
     = \<lparr>status = 500,
        body = js ''{"success":false,"message":"Failed to send email"}'',
        headers = [(js ''Content-Type'', js ''application/json'')]\<rparr>\<close>
proof -
  let ?parsed = "contact_json (js ''Ann'') (js ''a@b.co'') [] (js ''hi'')"
  let ?req = "json_post None ?parsed"
  let ?cd = "\<lparr>name = js ''Ann'', email = js ''a@b.co'', phone = [], message = js ''hi''\<rparr>"
  have cd: "sanitize_inputs ?parsed = Inr ?cd"
    by (simp add: contact_json_sanitize sanitize_examples)
  have valid: "validate ?cd = None"
    by (simp add: validate_def email_examples) (simp add: js_def)
  note reach = json_post_no_origin[of site_env ?parsed] json_post_read[of None ?parsed] cd valid
  have refuse: "try_block site_env ?req provider_refuses
      = (Some (email_request site_env ?req ?cd), Inl (Error (js ''Failed to send email'')))"
    using success_and_failure_responses[where env = site_env and req = ?req
        and parsed = ?parsed and cd = ?cd and fetch = provider_refuses
        and emailResponse = "\<lparr>ok = False\<rparr>"] reach
    by (simp add: provider_refuses_def)
  have down: "try_block site_env ?req provider_unreachable
      = (Some (email_request site_env ?req ?cd), Inl TypeError)"
    using success_and_failure_responses[where env = site_env and req = ?req
        and parsed = ?parsed and cd = ?cd and fetch = provider_unreachable
        and thrown = TypeError] reach
    by (simp add: provider_unreachable_def)
  from success_and_failure_responses[where env = site_env and req = ?req
      and parsed = ?parsed and cd = ?cd and fetch = provider_accepts
      and emailResponse = "\<lparr>ok = True\<rparr>"] reach
  have "response (onRequestPost site_env ?req provider_accepts)
     = \<lparr>status = 200,
        body = js ''{\"success\":true,\"message\":\"Email sent successfully\"}'',
        headers = [(js ''Content-Type'', js ''application/json'')]\<rparr>"
    by (simp add: provider_accepts_def)
  moreover from success_and_failure_responses[where env = site_env and req = ?req
      and fetch = provider_refuses and sent = "Some (email_request site_env ?req ?cd)"
      and thrown = "Error (js ''Failed to send email'')"] refuse
  have "response (onRequestPost site_env ?req provider_refuses)
     = \<lparr>status = 500,
        body = js ''{\"success\":false,\"message\":\"Failed to send email\"}'',
        headers = [(js ''Content-Type'', js ''application/json'')]\<rparr>"
    by simp
  moreover from success_and_failure_responses[where env = site_env and req = ?req
      and fetch = provider_unreachable and sent = "Some (email_request site_env ?req ?cd)"
      and thrown = TypeError] down
  have "response (onRequestPost site_env ?req provider_unreachable)
     = \<lparr>status = 500,
        body = js ''{\"success\":false,\"message\":\"Failed to send email\"}'',
        headers = [(js ''Content-Type'', js ''application/json'')]\<rparr>"
    by simp
  ultimately show ?thesis by blast
qed

section \<open>The origin check\<close>

lemma split_concat: "concat (map (\<lambda>seg. sep # seg) (split s sep)) = sep # s"
proof (induction s)
  case Nil
  show ?case by simp
next
  case (Cons c cs)
  obtain x xs where x: "split cs sep = x # xs" using split_not_Nil[of cs sep]
    by (cases "split cs sep") auto
  with Cons show ?case by auto
qed

lemma origin_forbidden_iff:
  "origin_forbidden env req \<longleftrightarrow>
     (\<exists>v. headers_get req (js ''Origin'') = Some v \<and> v \<noteq> []
        \<and> v \<notin> set (split (ALLOWED_ORIGINS env) 0x2C))"
  by (auto simp: origin_forbidden_def Let_def split: option.splits)

lemma valid_contact_accepted:
  "onRequestPost env
     (json_post origin (contact_json (js ''Ann'') (js ''a@b.co'') [] (js ''hi'')))
     provider_accepts
   = (if origin_forbidden env
          (json_post origin (contact_json (js ''Ann'') (js ''a@b.co'') [] (js ''hi'')))
      then \<lparr>response = \<lparr>status = 403, body = js ''Forbidden'', headers = []\<rparr>,
            fetched = None, logged = None\<rparr>
      else \<lparr>response = success_response,
            fetched = Some (email_request env
              (json_post origin (contact_json (js ''Ann'') (js ''a@b.co'') [] (js ''hi'')))
              \<lparr>name = js ''Ann'', email = js ''a@b.co'', phone = [], message = js ''hi''\<rparr>),
            logged = None\<rparr>)"
proof -
  let ?parsed = "contact_json (js ''Ann'') (js ''a@b.co'') [] (js ''hi'')"
  let ?cd = "\<lparr>name = js ''Ann'', email = js ''a@b.co'', phone = [], message = js ''hi''\<rparr>"
  have cd: "sanitize_inputs ?parsed = Inr ?cd"
    by (simp add: contact_json_sanitize sanitize_examples)
  have valid: "validate ?cd = None"
    by (simp add: validate_def email_examples) (simp add: js_def)
  show ?thesis
  proof (cases "origin_forbidden env (json_post origin ?parsed)")
    case True
    then show ?thesis by (simp add: handler_forbidden)
  next
    case False
    from handler_dispatch[OF False json_post_read cd valid, of provider_accepts] False
    show ?thesis by (simp add: provider_accepts_def)
  qed
qed

text \<open>
  C3, as the specification states it, fails twice.  The 403 response has a body, the text
  "Forbidden"; and an \<open>Origin\<close> header whose value is the empty string is falsy, so the
  check lets it through although the empty string is not in the allow-list.
\<close>

theorem origin_check_counterexample:
  "headers_get (json_post (Some (js ''https://evil.example'')) JNull) (js ''Origin'')
     = Some (js ''https://evil.example'')
   \<and> js ''https://evil.example'' \<notin> set (split (ALLOWED_ORIGINS site_env) 0x2C)
   \<and> status (response (onRequestPost site_env
        (json_post (Some (js ''https://evil.example'')) JNull) provider_accepts)) = 403
   \<and> body (response (onRequestPost site_env
        (json_post (Some (js ''https://evil.example'')) JNull) provider_accepts))
      = js ''Forbidden''
   \<and> body (response (onRequestPost site_env
        (json_post (Some (js ''https://evil.example'')) JNull) provider_accepts)) \<noteq> []
   \<and> headers_get (json_post (Some [])
        (contact_json (js ''Ann'') (js ''a@b.co'') [] (js ''hi''))) (js ''Origin'') = Some []
   \<and> [] \<notin> set (split (ALLOWED_ORIGINS site_env) 0x2C)
   \<and> status (response (onRequestPost site_env
        (json_post (Some []) (contact_json (js ''Ann'') (js ''a@b.co'') [] (js ''hi'')))
        provider_accepts)) = 200"
proof -
  have allowed: "split (ALLOWED_ORIGINS site_env) 0x2C = [js ''https://site.example'']"
    by (simp add: site_env_def split_site)
  have evil: "js ''https://evil.example'' \<noteq> js ''https://site.example''"
    "js ''https://evil.example'' \<noteq> []" "js ''Forbidden'' \<noteq> []" "js ''https://site.example'' \<noteq> []"
    by (simp_all add: js_def)
  have "origin_forbidden site_env (json_post (Some (js ''https://evil.example'')) JNull)"
    unfolding origin_forbidden_iff json_post_origin using allowed evil by simp
  then have 1: "onRequestPost site_env (json_post (Some (js ''https://evil.example'')) JNull)
      provider_accepts
    = \<lparr>response = \<lparr>status = 403, body = js ''Forbidden'', headers = []\<rparr>,
       fetched = None, logged = None\<rparr>"
    by (rule handler_forbidden)
  have "\<not> origin_forbidden site_env
      (json_post (Some []) (contact_json (js ''Ann'') (js ''a@b.co'') [] (js ''hi'')))"
    unfolding origin_forbidden_iff json_post_origin by simp
  then have 2: "status (response (onRequestPost site_env
        (json_post (Some []) (contact_json (js ''Ann'') (js ''a@b.co'') [] (js ''hi'')))
        provider_accepts)) = 200"
    by (simp add: valid_contact_accepted success_response_def)
  show ?thesis using 1 2 allowed evil by (simp add: json_post_origin)
qed

text \<open>
  C3, amended: For every request that carries a non-empty \<open>Origin\<close> header whose value is
  not a member of the list obtained by splitting \<open>ALLOWED_ORIGINS\<close> at its commas, the
  handler fails immediately (it parses no body, calls no provider and logs nothing) with
  HTTP 403 and the plain-text body "Forbidden"; for every request without an \<open>Origin\<close>
  header, or with an empty one, the handler never answers 403.
\<close>

theorem origin_check:
  "(headers_get req (js ''Origin'') = Some v \<and> v \<noteq> []
      \<and> v \<notin> set (split (ALLOWED_ORIGINS env) 0x2C) \<longrightarrow>
      onRequestPost env req fetch =
        \<lparr>response = \<lparr>status = 403, body = js ''Forbidden'', headers = []\<rparr>,
         fetched = None, logged = None\<rparr>)
   \<and> (headers_get req (js ''Origin'') = None \<or> headers_get req (js ''Origin'') = Some [] \<longrightarrow>
      status (response (onRequestPost env req fetch)) \<noteq> 403)"
proof -
  have "onRequestPost env req fetch =
        \<lparr>response = \<lparr>status = 403, body = js ''Forbidden'', headers = []\<rparr>,
         fetched = None, logged = None\<rparr>"
    if "headers_get req (js ''Origin'') = Some v" "v \<noteq> []"
      "v \<notin> set (split (ALLOWED_ORIGINS env) 0x2C)"
  proof (rule handler_forbidden)
    show "origin_forbidden env req" unfolding origin_forbidden_iff using that by blast
  qed
  moreover have "status (response (onRequestPost env req fetch)) \<noteq> 403"
    if "headers_get req (js ''Origin'') = None \<or> headers_get req (js ''Origin'') = Some []"
  proof -
    from that have "\<not> origin_forbidden env req" unfolding origin_forbidden_iff by auto
    then show ?thesis by (simp add: handler_status_403)
  qed
  ultimately show ?thesis by blast
qed

theorem origin_check_witness:
  "onRequestPost site_env (json_post (Some (js ''https://evil.example'')) JNull)
       provider_accepts
     = \<lparr>response = \<lparr>status = 403, body = js ''Forbidden'', headers = []\<rparr>,
        fetched = None, logged = None\<rparr>
   \<and> status (response (onRequestPost site_env (json_post None JNull) provider_accepts)) \<noteq> 403
   \<and> status (response (onRequestPost site_env (json_post (Some []) JNull) provider_accepts))
       \<noteq> 403"
proof -
  have allowed: "split (ALLOWED_ORIGINS site_env) 0x2C = [js ''https://site.example'']"
    by (simp add: site_env_def split_site)
  have evil: "js ''https://evil.example'' \<noteq> js ''https://site.example''"
    "js ''https://evil.example'' \<noteq> []"
    by (simp_all add: js_def)
  from origin_check[of "json_post (Some (js ''https://evil.example'')) JNull"
      "js ''https://evil.example''" site_env provider_accepts] allowed evil
  have "onRequestPost site_env (json_post (Some (js ''https://evil.example'')) JNull)
       provider_accepts
     = \<lparr>response = \<lparr>status = 403, body = js ''Forbidden'', headers = []\<rparr>,
        fetched = None, logged = None\<rparr>"
    by (simp add: json_post_origin)
  moreover from origin_check[of "json_post None JNull" _ site_env provider_accepts]
  have "status (response (onRequestPost site_env (json_post None JNull) provider_accepts))
      \<noteq> 403"
    by (simp add: json_post_origin)
  moreover from origin_check[of "json_post (Some []) JNull" _ site_env provider_accepts]
  have "status (response (onRequestPost site_env (json_post (Some []) JNull) provider_accepts))
      \<noteq> 403"
    by (simp add: json_post_origin)
  ultimately show ?thesis by blast
qed

text \<open>
  C10, as stated, fails where the entry without its whitespace is a segment of the list
  too: with \<open>ALLOWED_ORIGINS\<close> the text \<open>https://site.example, https://site.example\<close> the
  second segment has a leading space, and the origin \<open>https://site.example\<close> is accepted
  all the same, by the first segment.
\<close>

theorem origin_whitespace_counterexample:
  "js '' https://site.example''
     \<in> set (split (js ''https://site.example, https://site.example'') 0x2C)
   \<and> trim (js '' https://site.example'') = js ''https://site.example''
   \<and> trim (js '' https://site.example'') \<noteq> js '' https://site.example''
   \<and> status (response (onRequestPost
        \<lparr>RESEND_API_KEY = js ''re_test_key'', TO_EMAIL = js ''owner@site.example'',
         ALLOWED_ORIGINS = js ''https://site.example, https://site.example''\<rparr>
        (json_post (Some (js ''https://site.example''))
           (contact_json (js ''Ann'') (js ''a@b.co'') [] (js ''hi'')))
        provider_accepts)) = 200"
proof -
  have segs: "split (js ''https://site.example, https://site.example'') 0x2C
      = [js ''https://site.example'', js '' https://site.example'']"
    by (simp add: js_def)
  have tr: "trim (js '' https://site.example'') = js ''https://site.example''"
    by (simp add: js_def trim_def is_whitespace_def)
  have ne: "js ''https://site.example'' \<noteq> js '' https://site.example''"
    by (simp add: js_def)
  have "\<not> origin_forbidden
        \<lparr>RESEND_API_KEY = js ''re_test_key'', TO_EMAIL = js ''owner@site.example'',
         ALLOWED_ORIGINS = js ''https://site.example, https://site.example''\<rparr>
        (json_post (Some (js ''https://site.example''))
           (contact_json (js ''Ann'') (js ''a@b.co'') [] (js ''hi'')))"
    unfolding origin_forbidden_iff json_post_origin by (simp add: segs)
  then have "status (response (onRequestPost
        \<lparr>RESEND_API_KEY = js ''re_test_key'', TO_EMAIL = js ''owner@site.example'',
         ALLOWED_ORIGINS = js ''https://site.example, https://site.example''\<rparr>
        (json_post (Some (js ''https://site.example''))
           (contact_json (js ''Ann'') (js ''a@b.co'') [] (js ''hi'')))
        provider_accepts)) = 200"
    by (simp add: valid_contact_accepted success_response_def)
  with segs tr ne show ?thesis by simp
qed

text \<open>
  C10, amended: Allow-list membership is decided by exact string equality of the \<open>Origin\<close>
  header against the segments produced by splitting \<open>ALLOWED_ORIGINS\<close> at its commas (the
  segments, joined by commas again, are \<open>ALLOWED_ORIGINS\<close>), with no trimming, case folding
  or other normalization: the handler answers 403 exactly when the request has a non-empty
  \<open>Origin\<close> header that equals none of the segments.  In particular, for every segment with
  whitespace around it, an \<open>Origin\<close> equal to that segment without the whitespace is
  rejected with 403, unless that value is empty or is itself a segment of the list.
\<close>

theorem origin_exact_match:
  "(status (response (onRequestPost env req fetch)) = 403 \<longleftrightarrow>
      (\<exists>v. headers_get req (js ''Origin'') = Some v \<and> v \<noteq> []
         \<and> (\<forall>seg \<in> set (split (ALLOWED_ORIGINS env) 0x2C). v \<noteq> seg)))
   \<and> concat (map (\<lambda>seg. 0x2C # seg) (split (ALLOWED_ORIGINS env) 0x2C))
       = 0x2C # ALLOWED_ORIGINS env
   \<and> (\<forall>seg \<in> set (split (ALLOWED_ORIGINS env) 0x2C). 0x2C \<notin> set seg)
   \<and> (seg \<in> set (split (ALLOWED_ORIGINS env) 0x2C) \<and> trim seg \<noteq> seg
        \<and> trim seg \<noteq> [] \<and> trim seg \<notin> set (split (ALLOWED_ORIGINS env) 0x2C)
        \<and> headers_get req (js ''Origin'') = Some (trim seg) \<longrightarrow>
      status (response (onRequestPost env req fetch)) = 403)"
proof -
  have "status (response (onRequestPost env req fetch)) = 403 \<longleftrightarrow>
      (\<exists>v. headers_get req (js ''Origin'') = Some v \<and> v \<noteq> []
         \<and> (\<forall>seg \<in> set (split (ALLOWED_ORIGINS env) 0x2C). v \<noteq> seg))"
    unfolding handler_status_403 origin_forbidden_iff by blast
  moreover have "\<forall>seg \<in> set (split (ALLOWED_ORIGINS env) 0x2C). 0x2C \<notin> set seg"
    using split_no_separator by blast
  moreover have "status (response (onRequestPost env req fetch)) = 403"
    if "trim seg \<noteq> []" "trim seg \<notin> set (split (ALLOWED_ORIGINS env) 0x2C)"
      "headers_get req (js ''Origin'') = Some (trim seg)"
    unfolding handler_status_403 origin_forbidden_iff using that by blast
  ultimately show ?thesis using split_concat[of "0x2C" "ALLOWED_ORIGINS env"] by blast
qed

theorem origin_exact_match_witness:
  "js '' https://other.example''
     \<in> set (split (js ''https://site.example, https://other.example'') 0x2C)
   \<and> trim (js '' https://other.example'') = js ''https://other.example''
   \<and> status (response (onRequestPost
        \<lparr>RESEND_API_KEY = js ''re_test_key'', TO_EMAIL = js ''owner@site.example'',
         ALLOWED_ORIGINS = js ''https://site.example, https://other.example''\<rparr>
        (json_post (Some (js ''https://other.example''))
           (contact_json (js ''Ann'') (js ''a@b.co'') [] (js ''hi'')))
        provider_accepts)) = 403
   \<and> status (response (onRequestPost
        \<lparr>RESEND_API_KEY = js ''re_test_key'', TO_EMAIL = js ''owner@site.example'',
         ALLOWED_ORIGINS = js ''https://site.example, https://other.example''\<rparr>
        (json_post (Some (js ''HTTPS://SITE.EXAMPLE''))
           (contact_json (js ''Ann'') (js ''a@b.co'') [] (js ''hi'')))
        provider_accepts)) = 403"
proof -
  let ?env = "\<lparr>RESEND_API_KEY = js ''re_test_key'', TO_EMAIL = js ''owner@site.example'',
         ALLOWED_ORIGINS = js ''https://site.example, https://other.example''\<rparr>"
  let ?parsed = "contact_json (js ''Ann'') (js ''a@b.co'') [] (js ''hi'')"
  have segs: "split (js ''https://site.example, https://other.example'') 0x2C
      = [js ''https://site.example'', js '' https://other.example'']"
    by (simp add: js_def)
  have tr: "trim (js '' https://other.example'') = js ''https://other.example''"
    by (simp add: js_def trim_def is_whitespace_def)
  have ne: "js ''https://other.example'' \<noteq> js '' https://other.example''"
    "js ''https://other.example'' \<noteq> js ''https://site.example''"
    "js ''https://other.example'' \<noteq> []"
    "js ''HTTPS://SITE.EXAMPLE'' \<noteq> js '' https://other.example''"
    "js ''HTTPS://SITE.EXAMPLE'' \<noteq> js ''https://site.example''"
    "js ''HTTPS://SITE.EXAMPLE'' \<noteq> []"
    by (simp_all add: js_def)
  from origin_exact_match[of ?env "json_post (Some (js ''https://other.example'')) ?parsed"
      provider_accepts "js '' https://other.example''"]
  have "status (response (onRequestPost ?env
        (json_post (Some (js ''https://other.example'')) ?parsed) provider_accepts)) = 403"
    using segs tr ne by (simp add: json_post_origin)
  moreover from origin_exact_match[of ?env "json_post (Some (js ''HTTPS://SITE.EXAMPLE'')) ?parsed"
      provider_accepts "js '' https://other.example''"]
  have "status (response (onRequestPost ?env
        (json_post (Some (js ''HTTPS://SITE.EXAMPLE'')) ?parsed) provider_accepts)) = 403"
    using segs ne by (simp add: json_post_origin)
  ultimately show ?thesis using segs tr by simp
qed

section \<open>The email sent to the provider\<close>

lemma embed_here: "sublist x (x @ b)"
  by (rule sublist_append_rightI)

lemma embed_later: "sublist x b \<Longrightarrow> sublist x (a @ b)"
  unfolding sublist_def by (metis append_assoc)

lemma embed_cons: "sublist x b \<Longrightarrow> sublist x (c # b)"
  unfolding sublist_def by (metis append_Cons)

lemma html_body_embeds:
  "sublist (name cd) (html_body req cd)"
  "sublist (email cd) (html_body req cd)"
  "sublist (if phone cd = [] then js ''Not provided'' else phone cd) (html_body req cd)"
  "sublist (message_html (message cd)) (html_body req cd)"
  "sublist (clientIP req) (html_body req cd)"
  "sublist (or_unknown (cf_field req city)) (html_body req cd)"
  "sublist (or_unknown (cf_field req region)) (html_body req cd)"
  "sublist (or_unknown (cf_field req country)) (html_body req cd)"
  "sublist (or_unknown (cf_field req timezone)) (html_body req cd)"
  "sublist (asn_text req) (html_body req cd)"
  "sublist (or_unknown (cf_field req colo)) (html_body req cd)"
  "sublist (userAgent req) (html_body req cd)"
  unfolding html_body_def join_lines.simps append_assoc append_Nil
  by ((rule embed_here | rule embed_later | rule embed_cons)+)+

text \<open>
  C7, as stated, fails in its first item: the sender address is not fixed by the
  configuration.  It is the text \<open>contact@yourdomain.com\<close> of the source, none of the
  three configured values, and it stays the same when every configured value changes.
\<close>

theorem sender_not_configured_counterexample:
  "fetched (onRequestPost site_env
      (json_post None (contact_json (js ''Ann'') (js ''a@b.co'') [] (js ''hi'')))
      provider_accepts)
     = Some (email_request site_env
         (json_post None (contact_json (js ''Ann'') (js ''a@b.co'') [] (js ''hi'')))
         \<lparr>name = js ''Ann'', email = js ''a@b.co'', phone = [], message = js ''hi''\<rparr>)
   \<and> from_address (payload (email_request site_env
         (json_post None (contact_json (js ''Ann'') (js ''a@b.co'') [] (js ''hi'')))
         \<lparr>name = js ''Ann'', email = js ''a@b.co'', phone = [], message = js ''hi''\<rparr>))
     = js ''contact@yourdomain.com''
   \<and> js ''contact@yourdomain.com'' \<noteq> RESEND_API_KEY site_env
   \<and> js ''contact@yourdomain.com'' \<noteq> TO_EMAIL site_env
   \<and> js ''contact@yourdomain.com'' \<noteq> ALLOWED_ORIGINS site_env
   \<and> from_address (payload (email_request
         \<lparr>RESEND_API_KEY = js ''other_key'', TO_EMAIL = js ''sales@other.example'',
          ALLOWED_ORIGINS = js ''https://other.example''\<rparr>
         (json_post None (contact_json (js ''Ann'') (js ''a@b.co'') [] (js ''hi'')))
         \<lparr>name = js ''Ann'', email = js ''a@b.co'', phone = [], message = js ''hi''\<rparr>))
     = js ''contact@yourdomain.com''"
proof -
  have "\<not> origin_forbidden site_env
      (json_post None (contact_json (js ''Ann'') (js ''a@b.co'') [] (js ''hi'')))"
    by (rule json_post_no_origin)
  then have "fetched (onRequestPost site_env
      (json_post None (contact_json (js ''Ann'') (js ''a@b.co'') [] (js ''hi'')))
      provider_accepts)
     = Some (email_request site_env
         (json_post None (contact_json (js ''Ann'') (js ''a@b.co'') [] (js ''hi'')))
         \<lparr>name = js ''Ann'', email = js ''a@b.co'', phone = [], message = js ''hi''\<rparr>)"
    by (simp add: valid_contact_accepted)
  moreover have "js ''contact@yourdomain.com'' \<noteq> RESEND_API_KEY site_env"
    "js ''contact@yourdomain.com'' \<noteq> TO_EMAIL site_env"
    "js ''contact@yourdomain.com'' \<noteq> ALLOWED_ORIGINS site_env"
    by (simp_all add: site_env_def js_def)
  ultimately show ?thesis by (simp add: email_request_def)
qed

text \<open>
  C7, amended: For every submission that passes validation, the outbound email request (a
  POST to the provider's endpoint with the configured API key as bearer token) is
  constructed with: the sender address \<open>contact@yourdomain.com\<close>, which is written in the
  code and is the same under every configuration; the recipient taken from the
  configuration; a subject embedding the sanitized name; an HTML body embedding the
  sanitized name and email, the sanitized phone (or "Not provided" when it is empty), the
  sanitized message with every line feed converted to an HTML line break, and the
  connection metadata (client address, location, time zone, network, data centre, user
  agent); and reply-to set to the submitter's sanitized email.
\<close>

theorem outbound_email_request:
  assumes "\<not> origin_forbidden env req" and "read_contactData req = Inr parsed"
    and "sanitize_inputs parsed = Inr cd" and "validate cd = None"
  shows "\<exists>sent. fetched (onRequestPost env req fetch) = Some sent
     \<and> url sent = js ''https://api.resend.com/emails'' \<and> http_method sent = js ''POST''
     \<and> authorization sent = js ''Bearer '' @ RESEND_API_KEY env
     \<and> from_address (payload sent) = js ''contact@yourdomain.com''
     \<and> to_address (payload sent) = TO_EMAIL env
     \<and> subject (payload sent) = js ''Contact Form: '' @ name cd
     \<and> reply_to (payload sent) = email cd
     \<and> sublist (name cd) (html (payload sent))
     \<and> sublist (email cd) (html (payload sent))
     \<and> sublist (if phone cd = [] then js ''Not provided'' else phone cd) (html (payload sent))
     \<and> sublist (concat (map (\<lambda>c. if c = 0x0A then js ''<br>'' else [c]) (message cd)))
          (html (payload sent))
     \<and> 0x0A \<notin> set (concat (map (\<lambda>c. if c = 0x0A then js ''<br>'' else [c]) (message cd)))
     \<and> sublist (clientIP req) (html (payload sent))
     \<and> sublist (or_unknown (cf_field req city)) (html (payload sent))
     \<and> sublist (or_unknown (cf_field req region)) (html (payload sent))
     \<and> sublist (or_unknown (cf_field req country)) (html (payload sent))
     \<and> sublist (or_unknown (cf_field req timezone)) (html (payload sent))
     \<and> sublist (asn_text req) (html (payload sent))
     \<and> sublist (or_unknown (cf_field req colo)) (html (payload sent))
     \<and> sublist (userAgent req) (html (payload sent))"
proof -
  let ?sent = "email_request env req cd"
  have "fetched (onRequestPost env req fetch) = Some ?sent"
    using handler_dispatch[OF assms, of fetch] by (auto split: sum.splits)
  moreover have "html (payload ?sent) = html_body req cd" by (simp add: email_request_def)
  moreover note html_body_embeds[where cd = cd and req = req]
    message_html_concat[of "message cd"] message_html_no_newline[of "message cd"]
  ultimately show ?thesis by (simp add: email_request_def)
qed

theorem outbound_email_request_witness:
  "\<exists>sent. fetched (onRequestPost site_env
       (json_post None (contact_json (js ''Ann'') (js ''a@b.co'') [] [0x68, 0x0A, 0x69]))
       provider_accepts) = Some sent
     \<and> from_address (payload sent) = js ''contact@yourdomain.com''
     \<and> to_address (payload sent) = js ''owner@site.example''
     \<and> subject (payload sent) = js ''Contact Form: Ann''
     \<and> reply_to (payload sent) = js ''a@b.co''
     \<and> sublist (js ''Not provided'') (html (payload sent))
     \<and> sublist (js ''h<br>i'') (html (payload sent))
     \<and> sublist (js ''unknown'') (html (payload sent))"
proof -
  let ?parsed = "contact_json (js ''Ann'') (js ''a@b.co'') [] [0x68, 0x0A, 0x69]"
  let ?req = "json_post None ?parsed"
  let ?cd = "\<lparr>name = js ''Ann'', email = js ''a@b.co'', phone = [], message = [0x68, 0x0A, 0x69]\<rparr>"
  have msg: "sanitize [0x68, 0x0A, 0x69] = [0x68, 0x0A, 0x69]"
    by (rule sanitize_plain) (simp_all add: no_outer_whitespace_def is_whitespace_def)
  have cd: "sanitize_inputs ?parsed = Inr ?cd"
    by (simp add: contact_json_sanitize sanitize_examples msg)
  have valid: "validate ?cd = None"
    by (simp add: validate_def email_examples) (simp add: js_def)
  have ua: "userAgent ?req = js ''unknown''"
    by (simp add: userAgent_def or_unknown_def json_post_def js_def)
  from outbound_email_request[where env = site_env and fetch = provider_accepts,
      OF json_post_no_origin json_post_read cd valid]
  show ?thesis
    by (auto simp: ua site_env_def) (simp_all add: js_def)
qed

section \<open>Fields missing from a JSON body\<close>

lemma missing_required_fields_rejected:
  assumes "\<not> origin_forbidden env req" and "read_contactData req = Inr parsed"
    and "sanitize_inputs parsed = Inr cd"
    and "name cd = [] \<or> email cd = [] \<or> message cd = []"
  shows "onRequestPost env req fetch =
     \<lparr>response = \<lparr>status = 400, body = js ''Missing required fields: name, email, message'',
                  headers = []\<rparr>,
      fetched = None, logged = None\<rparr>"
proof -
  from assms(4) have "validate cd
      = Some \<lparr>status = 400, body = js ''Missing required fields: name, email, message'',
              headers = []\<rparr>"
    by (auto simp: validate_def)
  from handler_rejected[OF assms(1-3) this] show ?thesis .
qed

text \<open>
  C1: a submission whose JSON body has no \<open>name\<close> is not answered with 400.  Sanitizing the
  absent field throws before the required-field check is reached, and the handler
  answers 500.  The same submission as a form, where a missing field defaults to the empty
  string, gets the 400 that the claim states.
\<close>

theorem json_missing_name_gives_500:
  "onRequestPost site_env
     (json_post None
        (JObj [(js ''email'', JStr (js ''a@b.co'')), (js ''phone'', JStr []),
               (js ''message'', JStr (js ''hi''))]))
     provider_accepts
   = \<lparr>response = failure_response, fetched = None, logged = Some TypeError\<rparr>
   \<and> status failure_response = 500
   \<and> onRequestPost site_env
     (form_post None
        [(js ''email'', FormString (js ''a@b.co'')), (js ''message'', FormString (js ''hi''))])
     provider_accepts
   = \<lparr>response = \<lparr>status = 400, body = js ''Missing required fields: name, email, message'',
                  headers = []\<rparr>,
      fetched = None, logged = None\<rparr>"
proof -
  let ?parsed = "JObj [(js ''email'', JStr (js ''a@b.co'')), (js ''phone'', JStr []),
               (js ''message'', JStr (js ''hi''))]"
  let ?form = "[(js ''email'', FormString (js ''a@b.co'')), (js ''message'', FormString (js ''hi''))]"
  have "sanitize_inputs ?parsed = Inl TypeError"
    by (simp add: sanitize_inputs_def sanitize_field_def js_def)
  from handler_sanitize_error[OF json_post_no_origin json_post_read this]
  have 1: "onRequestPost site_env (json_post None ?parsed) provider_accepts
      = \<lparr>response = failure_response, fetched = None, logged = Some TypeError\<rparr>" .
  have fields: "form_field ?form (js ''name'') = JStr []"
    "form_field ?form (js ''email'') = JStr (js ''a@b.co'')"
    "form_field ?form (js ''phone'') = JStr []"
    "form_field ?form (js ''message'') = JStr (js ''hi'')"
    by (simp_all add: form_field_def js_def)
  have "sanitize_inputs (JObj [(js ''name'', form_field ?form (js ''name'')),
                (js ''email'', form_field ?form (js ''email'')),
                (js ''phone'', form_field ?form (js ''phone'')),
                (js ''message'', form_field ?form (js ''message''))])
      = Inr \<lparr>name = [], email = js ''a@b.co'', phone = [], message = js ''hi''\<rparr>"
    unfolding fields using contact_json_sanitize[of "[]" "js ''a@b.co''" "[]" "js ''hi''"]
    by (simp add: contact_json_def sanitize_examples)
  from missing_required_fields_rejected[OF form_post_no_origin form_post_read this]
  have 2: "onRequestPost site_env (form_post None ?form) provider_accepts
      = \<lparr>response = \<lparr>status = 400, body = js ''Missing required fields: name, email, message'',
                  headers = []\<rparr>,
      fetched = None, logged = None\<rparr>"
    by simp
  from 1 2 show ?thesis by (simp add: failure_response_def)
qed

text \<open>
  C8: a valid submission whose JSON body has no \<open>phone\<close> does not reach the dispatch.
  Sanitizing the absent field throws, and the handler answers 500 without calling the
  provider.  The same submission as a form is sent to the provider and answered with 200.
\<close>

theorem json_missing_phone_gives_500:
  "onRequestPost site_env
     (json_post None
        (JObj [(js ''name'', JStr (js ''Ann'')), (js ''email'', JStr (js ''a@b.co'')),
               (js ''message'', JStr (js ''hi''))]))
     provider_accepts
   = \<lparr>response = failure_response, fetched = None, logged = Some TypeError\<rparr>
   \<and> status failure_response = 500
   \<and> onRequestPost site_env
     (form_post None
        [(js ''name'', FormString (js ''Ann'')), (js ''email'', FormString (js ''a@b.co'')),
         (js ''message'', FormString (js ''hi''))])
     provider_accepts
   = \<lparr>response = success_response,
      fetched = Some (email_request site_env
        (form_post None
          [(js ''name'', FormString (js ''Ann'')), (js ''email'', FormString (js ''a@b.co'')),
           (js ''message'', FormString (js ''hi''))])
        \<lparr>name = js ''Ann'', email = js ''a@b.co'', phone = [], message = js ''hi''\<rparr>),
      logged = None\<rparr>
   \<and> status success_response = 200"
proof -
  let ?parsed = "JObj [(js ''name'', JStr (js ''Ann'')), (js ''email'', JStr (js ''a@b.co'')),
               (js ''message'', JStr (js ''hi''))]"
  let ?form = "[(js ''name'', FormString (js ''Ann'')), (js ''email'', FormString (js ''a@b.co'')),
         (js ''message'', FormString (js ''hi''))]"
  let ?cd = "\<lparr>name = js ''Ann'', email = js ''a@b.co'', phone = [], message = js ''hi''\<rparr>"
  have "sanitize_inputs ?parsed = Inl TypeError"
    by (simp add: sanitize_inputs_def sanitize_field_def js_def)
  from handler_sanitize_error[OF json_post_no_origin json_post_read this]
  have 1: "onRequestPost site_env (json_post None ?parsed) provider_accepts
      = \<lparr>response = failure_response, fetched = None, logged = Some TypeError\<rparr>" .
  have fields: "form_field ?form (js ''name'') = JStr (js ''Ann'')"
    "form_field ?form (js ''email'') = JStr (js ''a@b.co'')"
    "form_field ?form (js ''phone'') = JStr []"
    "form_field ?form (js ''message'') = JStr (js ''hi'')"
    by (simp_all add: form_field_def js_def)
  have cd: "sanitize_inputs (JObj [(js ''name'', form_field ?form (js ''name'')),
                (js ''email'', form_field ?form (js ''email'')),
                (js ''phone'', form_field ?form (js ''phone'')),
                (js ''message'', form_field ?form (js ''message''))])
      = Inr ?cd"
    unfolding fields using contact_json_sanitize[of "js ''Ann''" "js ''a@b.co''" "[]" "js ''hi''"]
    by (simp add: contact_json_def sanitize_examples)
  have valid: "validate ?cd = None"
    by (simp add: validate_def email_examples) (simp add: js_def)
  from handler_dispatch[where env = site_env and fetch = provider_accepts,
      OF form_post_no_origin form_post_read cd valid]
  have 2: "onRequestPost site_env (form_post None ?form) provider_accepts
      = \<lparr>response = success_response,
         fetched = Some (email_request site_env (form_post None ?form) ?cd),
         logged = None\<rparr>"
    by (simp add: provider_accepts_def)
  from 1 2 show ?thesis by (simp add: failure_response_def success_response_def)
qed

end
